theory Spec2Isabelle
  imports Main
begin

section \<open>JavaScript string primitives used by the journal code\<close>

text \<open>
  Strings are character lists. The functions below model the methods of
  \<^verbatim>\<open>String.prototype\<close> that the configuration and injection code calls:
  \<^verbatim>\<open>startsWith\<close>, \<^verbatim>\<open>indexOf\<close>, \<^verbatim>\<open>substring\<close> and \<^verbatim>\<open>replace\<close> with
  a string pattern.
\<close>

definition starts_with :: "string \<Rightarrow> string \<Rightarrow> bool" where
  "starts_with s p = (take (length p) s = p)"

text \<open>The first index at which \<open>p\<close> occurs in \<open>s\<close>, if any.\<close>

fun index_of :: "string \<Rightarrow> string \<Rightarrow> nat option" where
  "index_of [] p = (if p = [] then Some 0 else None)"
| "index_of (c # cs) p =
     (if starts_with (c # cs) p then Some 0 else map_option Suc (index_of cs p))"

text \<open>\<^verbatim>\<open>s.indexOf(p)\<close>: the index, or -1 when \<open>p\<close> does not occur.\<close>

definition js_indexOf :: "string \<Rightarrow> string \<Rightarrow> int" where
  "js_indexOf s p = (case index_of s p of None \<Rightarrow> -1 | Some i \<Rightarrow> int i)"

text \<open>\<^verbatim>\<open>s.substring(a, b)\<close>: both ends are clamped to the length and swapped when
  \<open>a > b\<close>.\<close>

definition js_substring :: "string \<Rightarrow> nat \<Rightarrow> nat \<Rightarrow> string" where
  "js_substring s a b =
     (let a' = min a (length s); b' = min b (length s)
      in take (max a' b' - min a' b') (drop (min a' b') s))"

text \<open>
  The replacement text of \<^verbatim>\<open>replace\<close> is not inserted verbatim: ECMAScript's
  GetSubstitution expands \<^verbatim>\<open>$$\<close> to a dollar sign, \<^verbatim>\<open>$&\<close> to the matched text,
  \<^verbatim>\<open>$`\<close> to the text before the match and \<^verbatim>\<open>$'\<close> to the text after it. With a
  string pattern there are no capture groups, so every other use of the dollar sign is
  kept as it is.
\<close>

fun get_substitution :: "string \<Rightarrow> string \<Rightarrow> string \<Rightarrow> string \<Rightarrow> string" where
  "get_substitution m pre post [] = []"
| "get_substitution m pre post [c] = [c]"
| "get_substitution m pre post (c # d # r) =
     (if c = CHR ''$'' then
        (if d = CHR ''$'' then CHR ''$'' # get_substitution m pre post r
         else if d = CHR ''&'' then m @ get_substitution m pre post r
         else if d = CHR 0x60 then pre @ get_substitution m pre post r
         else if d = CHR 0x27 then post @ get_substitution m pre post r
         else c # get_substitution m pre post (d # r))
      else c # get_substitution m pre post (d # r))"

text \<open>\<^verbatim>\<open>s.replace(p, r)\<close> with a string \<open>p\<close>: only the first occurrence is replaced.\<close>

definition js_replace :: "string \<Rightarrow> string \<Rightarrow> string \<Rightarrow> string" where
  "js_replace s p r =
     (case index_of s p of
        None \<Rightarrow> s
      | Some i \<Rightarrow>
          take i s @ get_substitution p (take i s) (drop (i + length p) s) r
            @ drop (i + length p) s)"

text \<open>\<^verbatim>\<open>xs.join(sep)\<close>.\<close>

fun js_join :: "string \<Rightarrow> string list \<Rightarrow> string" where
  "js_join sep [] = []"
| "js_join sep [x] = x"
| "js_join sep (x # y # ys) = x @ sep @ js_join sep (y # ys)"

text \<open>\<^verbatim>\<open>xs.pop()\<close> as used on a filtered copy: the last element, if there is one.\<close>

definition js_pop :: "'a list \<Rightarrow> 'a option" where
  "js_pop xs = (if xs = [] then None else Some (last xs))"

section \<open>Configuration: data model\<close>

datatype error = TypeError | Error string

type_synonym Date = int

record ScopedTemplate =
  st_name :: "string option"
  st_scope :: "string option"
  st_template :: string
  st_value :: "string option"

text \<open>
  An inline template as it exists at run time. \<open>it_template\<close> is optional because a
  configured entry may lack the field.
\<close>

record InlineTemplate =
  it_name :: "string option"
  it_scope :: "string option"
  it_template :: "string option"
  it_value :: "string option"
  it_after :: string

text \<open>The objects found in \<^verbatim>\<open>settings.json\<close>; any field may be missing.\<close>

record PathFile =
  pf_path :: "string option"
  pf_file :: "string option"

record PatternDefinition =
  pd_notes :: "PathFile option"
  pd_entries :: "PathFile option"

record TemplateSetting =
  ts_name :: string
  ts_template :: "string option"
  ts_after :: "string option"

record ScopeDefinition =
  sd_name :: string
  sd_base :: string
  sd_patterns :: "PatternDefinition option"
  sd_templates :: "TemplateSetting list option"

text \<open>
  The workspace configuration, read through \<^verbatim>\<open>config.get(key)\<close>. String-valued keys
  (\<^verbatim>\<open>base\<close>, \<^verbatim>\<open>ext\<close>, \<^verbatim>\<open>locale\<close>, \<^verbatim>\<open>tpl-<id>\<close>, \<^verbatim>\<open><id>-after\<close>) and
  pattern-valued keys are looked up by their key; \<open>None\<close> is \<^verbatim>\<open>undefined\<close>. Every
  setting has the type that the source gives it in \<^verbatim>\<open>config.get<T>\<close>; in particular
  \<^verbatim>\<open>scopes\<close> and \<^verbatim>\<open>templates\<close> are arrays or undefined. A setting of another shape
  (the manifest's default for \<^verbatim>\<open>scopes\<close> is an empty object) makes the source throw a
  TypeError where it calls \<^verbatim>\<open>.filter\<close> on it; that error is not part of the model.
\<close>

record WorkspaceConfiguration =
  get_string :: "string \<Rightarrow> string option"
  get_pattern :: "string \<Rightarrow> PatternDefinition option"
  get_scopes :: "ScopeDefinition list option"
  get_templates :: "TemplateSetting list option"

text \<open>
  What the code reads from its platform: the home directory, the first workspace
  folder (empty when there is none), the platform's \<^verbatim>\<open>path\<close> module, the
  formatting of a date by \<^verbatim>\<open>moment(date).format(code)\<close>, and the clock.
\<close>

record Platform =
  os_homedir :: string
  workspaceRoot :: string
  path_normalize :: "string \<Rightarrow> string"
  path_format_parse :: "string \<Rightarrow> string"
  path_resolve :: "string \<Rightarrow> string \<Rightarrow> string"
  moment_format :: "Date \<Rightarrow> string \<Rightarrow> string"
  new_Date :: Date

definition SCOPE_DEFAULT :: string where
  "SCOPE_DEFAULT = ''default''"

definition DefaultPatternDefinition_notes_path :: string where
  "DefaultPatternDefinition_notes_path = ''${base}/notes''"

definition DefaultPatternDefinition_notes_file :: string where
  "DefaultPatternDefinition_notes_file = ''N${year}${month}${day}_${input}.${ext}''"

definition DefaultPatternDefinition_entries_path :: string where
  "DefaultPatternDefinition_entries_path = ''${base}/entries''"

definition DefaultPatternDefinition_entries_file :: string where
  "DefaultPatternDefinition_entries_file = ''${year}-${month}-${day} ${weekday}.${ext}''"

section \<open>Configuration: operations\<close>

definition resolveScope :: "string option \<Rightarrow> string" where
  "resolveScope scopeId =
     (case scopeId of None \<Rightarrow> SCOPE_DEFAULT
      | Some s \<Rightarrow> if length s = 0 then SCOPE_DEFAULT else s)"

definition getBasePath_default :: "Platform \<Rightarrow> WorkspaceConfiguration \<Rightarrow> string" where
  "getBasePath_default env cfg =
     (case get_string cfg ''base'' of
        None \<Rightarrow> path_resolve env (os_homedir env) ''Journal''
      | Some base \<Rightarrow>
          if length base > 0 then
            path_format_parse env (path_normalize env
              (js_replace (js_replace base ''${homeDir}'' (os_homedir env))
                 ''${workspaceRoot}'' (workspaceRoot env)))
          else path_resolve env (os_homedir env) ''Journal'')"

definition getBasePath ::
  "Platform \<Rightarrow> WorkspaceConfiguration \<Rightarrow> string option \<Rightarrow> error + string" where
  "getBasePath env cfg scopeId =
     (let scope = resolveScope scopeId in
      if scope = SCOPE_DEFAULT then Inr (getBasePath_default env cfg)
      else
        (case get_scopes cfg of
           None \<Rightarrow> Inl (Error ''Failed to resolve base path'')
         | Some scopes \<Rightarrow>
             (let base =
                map (\<lambda>scopedBase.
                       path_format_parse env (path_normalize env
                         (js_replace scopedBase ''${homeDir}'' (os_homedir env))))
                  (map sd_base (filter (\<lambda>v. sd_name v = scope) scopes))
              in case base of
                   [] \<Rightarrow> Inr (getBasePath_default env cfg)
                 | b # _ \<Rightarrow> Inr b)))"

text \<open>
  The guard reads \<^verbatim>\<open>isNullOrUndefined(ext) && (ext!.length === 0)\<close>: for an undefined
  setting the second operand is evaluated and throws, and a defined one is kept as it
  is, the empty string included.
\<close>

definition getFileExtension :: "WorkspaceConfiguration \<Rightarrow> error + string" where
  "getFileExtension cfg =
     (case get_string cfg ''ext'' of
        None \<Rightarrow> Inl TypeError
      | Some ext \<Rightarrow>
          Inr (if starts_with ext ''.'' then js_substring ext 1 (length ext) else ext))"

subsection \<open>Variable substitution\<close>




definition var_token :: "string \<Rightarrow> string" where
  "var_token key = ''${'' @ key @ ''}''"

text \<open>The atoms of an expression: a character and whether it may repeat.\<close>

fun parse_atoms :: "string \<Rightarrow> (char \<times> bool) list" where
  "parse_atoms [] = []"
| "parse_atoms [c] = [(c, False)]"
| "parse_atoms (c # d # r) =
     (if d = CHR ''+'' then (c, True) # parse_atoms r else (c, False) # parse_atoms (d # r))"

text \<open>Whether the atoms match at the head of the text, and whether they match
  anywhere in it.\<close>

fun match_atoms :: "(char \<times> bool) list \<Rightarrow> string \<Rightarrow> bool" where
  "match_atoms [] s = True"
| "match_atoms (a # r) [] = False"
| "match_atoms (a # r) (x # xs) =
     (x = fst a \<and> (match_atoms r xs \<or> (snd a \<and> match_atoms (a # r) xs)))"

fun search_atoms :: "(char \<times> bool) list \<Rightarrow> string \<Rightarrow> bool" where
  "search_atoms atoms [] = match_atoms atoms []"
| "search_atoms atoms (x # xs) = (match_atoms atoms (x # xs) \<or> search_atoms atoms xs)"

definition search_variable :: "string \<Rightarrow> string \<Rightarrow> bool" where
  "search_variable key template =
     search_atoms ((CHR ''$'', False) # parse_atoms (''{'' @ key @ ''}'')) template"


definition replaceVariableValue :: "string \<Rightarrow> string \<Rightarrow> string \<Rightarrow> string" where
  "replaceVariableValue key v template =
     (if search_variable key template
      then js_replace template (var_token key) v
      else template)"

subsection \<open>Date tokens\<close>

text \<open>
  \<^verbatim>\<open>template.match(regExpDateFormats)\<close> with the global expression
  \<^verbatim>\<open>/\$\{(?:(year|month|day|localTime|localDate|weekday)|(d:[\s\S]+?))\}/g\<close>: the matched
  texts from left to right, each search resuming where the previous match ended.
  \<open>match_at\<close> is one attempt at the head of the text: a fixed name followed by a
  closing brace, else \<^verbatim>\<open>d:\<close>, at least one character of any kind, and then as few
  characters as possible up to a closing brace.
\<close>

definition date_token_names :: "string list" where
  "date_token_names =
     [''year'', ''month'', ''day'', ''localTime'', ''localDate'', ''weekday'']"

definition match_fixed :: "string \<Rightarrow> string option" where
  "match_fixed r =
     (case filter (\<lambda>n. starts_with r (n @ ''}'')) date_token_names of
        [] \<Rightarrow> None
      | n # _ \<Rightarrow> Some (''${'' @ n @ ''}''))"

definition match_custom :: "string \<Rightarrow> string option" where
  "match_custom r =
     (if starts_with r ''d:'' then
        (case drop 2 r of
           [] \<Rightarrow> None
         | c # r' \<Rightarrow>
             if CHR ''}'' \<in> set r'
             then Some (''${d:'' @ c # takeWhile (\<lambda>x. x \<noteq> CHR ''}'') r' @ ''}'')
             else None)
      else None)"

definition match_at :: "string \<Rightarrow> string option" where
  "match_at s =
     (if starts_with s ''${'' then
        (case match_fixed (drop 2 s) of
           Some t \<Rightarrow> Some t
         | None \<Rightarrow> match_custom (drop 2 s))
      else None)"

text \<open>The scan; \<open>skip\<close> counts the characters of the last match still to be passed.\<close>

fun find_matches :: "nat \<Rightarrow> string \<Rightarrow> string list" where
  "find_matches skip [] = []"
| "find_matches skip (c # cs) =
     (case skip of
        Suc k \<Rightarrow> find_matches k cs
      | 0 \<Rightarrow>
          (case match_at (c # cs) of
             Some tok \<Rightarrow> tok # find_matches (length tok - 1) cs
           | None \<Rightarrow> find_matches 0 cs))"

definition match_date_formats :: "string \<Rightarrow> string list" where
  "match_date_formats template = find_matches 0 template"

text \<open>
  One round of the \<^verbatim>\<open>forEach\<close> over the matches: the \<^verbatim>\<open>switch\<close>. \<open>fmt\<close> is
  \<^verbatim>\<open>mom.format\<close> for the given date, in whatever locale that moment carries.
\<close>

definition replace_match :: "(string \<Rightarrow> string) \<Rightarrow> string \<Rightarrow> string \<Rightarrow> string" where
  "replace_match fmt template m =
     (if m = ''${year}'' then js_replace template m (fmt ''YYYY'')
      else if m = ''${month}'' then js_replace template m (fmt ''MM'')
      else if m = ''${day}'' then js_replace template m (fmt ''DD'')
      else if m = ''${localTime}'' then js_replace template m (fmt ''LT'')
      else if m = ''${localDate}'' then js_replace template m (fmt ''LL'')
      else if m = ''${weekday}'' then js_replace template m (fmt ''dddd'')
      else if starts_with m ''${d:'' then
        (let modifier =
           js_substring m (nat (js_indexOf m ''d:'' + 2)) (length m - 1)
         in js_replace template m (fmt modifier))
      else template)"

definition replaceDateFormats :: "Platform \<Rightarrow> string \<Rightarrow> Date \<Rightarrow> string" where
  "replaceDateFormats env template date =
     foldl (replace_match (moment_format env date)) template
       (match_date_formats template)"

subsection \<open>Path and file patterns\<close>

text \<open>
  The four resolvers read their definition from the configuration, fall back to the
  built-in default, and substitute variables. An exception inside the \<^verbatim>\<open>try\<close> block
  rejects the promise: the result is \<open>Inl\<close>.
\<close>

definition scoped_patterns ::
  "WorkspaceConfiguration \<Rightarrow> string option \<Rightarrow> PatternDefinition option" where
  "scoped_patterns cfg scopeId =
     Option.bind (get_scopes cfg) (\<lambda>scopes.
       Option.bind (js_pop (filter (\<lambda>sd. Some (sd_name sd) = scopeId) scopes))
         sd_patterns)"

definition getNotesPathPattern ::
  "Platform \<Rightarrow> WorkspaceConfiguration \<Rightarrow> Date \<Rightarrow> string option \<Rightarrow> error + ScopedTemplate" where
  "getNotesPathPattern env cfg date scopeId =
     (let dflt = (resolveScope scopeId = SCOPE_DEFAULT);
          definition =
            (if dflt
             then Option.bind (Option.bind (get_pattern cfg ''pattern'') pd_notes) pf_path
             else Option.bind (Option.bind (scoped_patterns cfg scopeId) pd_notes) pf_path);
          scope = (if dflt then Some SCOPE_DEFAULT else scopeId);
          template =
            (case definition of
               None \<Rightarrow> DefaultPatternDefinition_notes_path
             | Some d \<Rightarrow> if length d = 0 then DefaultPatternDefinition_notes_path else d);
          v1 = replaceVariableValue ''homeDir'' (os_homedir env) template
      in case getBasePath env cfg scopeId of
           Inl e \<Rightarrow> Inl e
         | Inr base \<Rightarrow>
             (let v2 = replaceVariableValue ''base'' base v1;
                  v3 = replaceDateFormats env v2 date
              in Inr \<lparr>st_name = None, st_scope = scope, st_template = template,
                      st_value = Some v3\<rparr>))"

definition getNotesFilePattern ::
  "Platform \<Rightarrow> WorkspaceConfiguration \<Rightarrow> Date \<Rightarrow> string \<Rightarrow> string option
     \<Rightarrow> error + ScopedTemplate" where
  "getNotesFilePattern env cfg date input scopeId =
     (let dflt = (resolveScope scopeId = SCOPE_DEFAULT);
          definition =
            (if dflt
             then Option.bind (Option.bind (get_pattern cfg ''pattern'') pd_notes) pf_file
             else Option.bind (Option.bind (scoped_patterns cfg scopeId) pd_notes) pf_file);
          scope = (if dflt then Some SCOPE_DEFAULT else scopeId);
          template =
            (case definition of
               None \<Rightarrow> DefaultPatternDefinition_notes_file
             | Some d \<Rightarrow> if length d = 0 then DefaultPatternDefinition_notes_file else d)
      in case getFileExtension cfg of
           Inl e \<Rightarrow> Inl e
         | Inr ext \<Rightarrow>
             (let v1 = replaceVariableValue ''ext'' ext template;
                  v2 = replaceVariableValue ''input'' input v1;
                  v3 = replaceDateFormats env v2 date
              in Inr \<lparr>st_name = None, st_scope = scope, st_template = template,
                      st_value = Some v3\<rparr>))"

definition getEntryPathPattern ::
  "Platform \<Rightarrow> WorkspaceConfiguration \<Rightarrow> Date \<Rightarrow> string option \<Rightarrow> error + ScopedTemplate" where
  "getEntryPathPattern env cfg date scopeId =
     (let dflt = (resolveScope scopeId = SCOPE_DEFAULT);
          definition =
            (if dflt
             then Option.bind (Option.bind (get_pattern cfg ''patterns'') pd_entries) pf_path
             else Option.bind (Option.bind (scoped_patterns cfg scopeId) pd_entries) pf_path);
          scope = (if dflt then Some SCOPE_DEFAULT else scopeId);
          template =
            (case definition of
               None \<Rightarrow> DefaultPatternDefinition_entries_path
             | Some d \<Rightarrow> if length d = 0 then DefaultPatternDefinition_entries_path else d)
      in case getBasePath env cfg scopeId of
           Inl e \<Rightarrow> Inl e
         | Inr base \<Rightarrow>
             (let v1 = replaceVariableValue ''base'' base template;
                  v2 = replaceDateFormats env v1 date;
                  v3 = path_normalize env v2
              in Inr \<lparr>st_name = None, st_scope = scope, st_template = template,
                      st_value = Some v3\<rparr>))"

definition getEntryFilePattern ::
  "Platform \<Rightarrow> WorkspaceConfiguration \<Rightarrow> Date \<Rightarrow> string option \<Rightarrow> error + ScopedTemplate" where
  "getEntryFilePattern env cfg date scopeId =
     (let dflt = (resolveScope scopeId = SCOPE_DEFAULT);
          definition =
            (if dflt
             then Option.bind (Option.bind (get_pattern cfg ''patterns'') pd_entries) pf_file
             else Option.bind (Option.bind (scoped_patterns cfg scopeId) pd_entries) pf_file);
          scope = (if dflt then Some SCOPE_DEFAULT else scopeId);
          template =
            (case definition of
               None \<Rightarrow> DefaultPatternDefinition_entries_file
             | Some d \<Rightarrow> if length d = 0 then DefaultPatternDefinition_entries_file else d)
      in case getFileExtension cfg of
           Inl e \<Rightarrow> Inl e
         | Inr ext \<Rightarrow>
             (let v1 = replaceVariableValue ''ext'' ext template;
                  v2 = replaceDateFormats env v1 date
              in Inr \<lparr>st_name = None, st_scope = scope, st_template = template,
                      st_value = Some v2\<rparr>))"

subsection \<open>Inline templates\<close>

definition LF :: string where
  "LF = [CHR 0x0A]"

text \<open>
  Modelled from the spec: \<^verbatim>\<open>Util.stringIsNotEmpty\<close> and \<^verbatim>\<open>Util.isNullOrUndefined\<close>
  live in the utility module, which is not among the sources; the legacy key counts
  when it holds a non-empty string.
\<close>

definition stringIsNotEmpty :: "string option \<Rightarrow> bool" where
  "stringIsNotEmpty v = (case v of None \<Rightarrow> False | Some s \<Rightarrow> length s > 0)"

text \<open>
  In the branch for a requested scope the source evaluates
  \<^verbatim>\<open>scopes?.filter(sd => sd.name = scope).pop()?.templates?.filter(...)?.pop()\<close>
  as a statement: the value is dropped and \<^verbatim>\<open>pattern\<close> stays undefined.
\<close>

definition getInlineTemplate ::
  "WorkspaceConfiguration \<Rightarrow> string \<Rightarrow> string \<Rightarrow> string \<Rightarrow> InlineTemplate" where
  "getInlineTemplate cfg ident defaultValue scopeId =
     (let scope = resolveScope (Some scopeId) in
      if stringIsNotEmpty (get_string cfg (''tpl-'' @ ident)) then
        \<lparr>it_name = Some ident, it_scope = Some SCOPE_DEFAULT,
         it_template = get_string cfg (''tpl-'' @ ident), it_value = None,
         it_after =
           (if stringIsNotEmpty (get_string cfg (ident @ ''-after''))
            then (case get_string cfg (ident @ ''-after'') of Some a \<Rightarrow> a | None \<Rightarrow> [])
            else [])\<rparr>
      else
        (let pattern =
           (if scope = SCOPE_DEFAULT
            then Option.bind (get_templates cfg)
                   (\<lambda>tpls. js_pop (filter (\<lambda>tpl. ts_name tpl = ident) tpls))
            else None)
         in case pattern of
              None \<Rightarrow>
                \<lparr>it_name = Some ident, it_scope = Some SCOPE_DEFAULT,
                 it_template = Some defaultValue, it_value = None, it_after = []\<rparr>
            | Some p \<Rightarrow>
                \<lparr>it_name = Some (ts_name p), it_scope = None,
                 it_template = ts_template p, it_value = None,
                 it_after =
                   (if ts_template p = None then defaultValue
                    else (case ts_after p of None \<Rightarrow> [] | Some a \<Rightarrow> a))\<rparr>))"

definition getEntryTemplate ::
  "Platform \<Rightarrow> WorkspaceConfiguration \<Rightarrow> Date \<Rightarrow> string option \<Rightarrow> error + InlineTemplate" where
  "getEntryTemplate env cfg date scopeId =
     (let sp = getInlineTemplate cfg ''entry'' (''# ${localDate}'' @ LF @ LF)
                 (resolveScope scopeId)
      in case it_template sp of
           None \<Rightarrow> Inl TypeError
         | Some t \<Rightarrow>
             (let template = js_replace t ''{content}'' ''${localDate}'';
                  v1 = replaceDateFormats env template date
              in case getBasePath env cfg scopeId of
                   Inl e \<Rightarrow> Inl e
                 | Inr base \<Rightarrow>
                     Inr (sp\<lparr>it_template := Some template,
                             it_value := Some (replaceVariableValue ''base'' base v1)\<rparr>)))"

definition getNotesTemplate ::
  "Platform \<Rightarrow> WorkspaceConfiguration \<Rightarrow> string option \<Rightarrow> error + InlineTemplate" where
  "getNotesTemplate env cfg scopeId =
     (let result = getInlineTemplate cfg ''note'' (''# ${input}'' @ LF @ ''${tags}'' @ LF)
                     (resolveScope scopeId)
      in case it_template result of
           None \<Rightarrow> Inl TypeError
         | Some t \<Rightarrow>
             (let template = js_replace t ''{content}'' ''${input}''
              in Inr (result\<lparr>it_template := Some template,
                        it_value := Some (replaceDateFormats env template (new_Date env))\<rparr>)))"

section \<open>Injection\<close>

subsection \<open>The editor's documents and edits\<close>

text \<open>
  The editor's \<^verbatim>\<open>TextDocument\<close>, \<^verbatim>\<open>Position\<close> and \<^verbatim>\<open>WorkspaceEdit\<close> are not part
  of the repository. They are modelled by their documented behaviour: a document is its
  text, with lines separated by line feeds; a position is a line and a character, both
  counted from zero; an edit is the list of its insertions, whose positions all refer
  to the document as it is when the edit is applied, insertions at the same place
  appearing in the order in which they were added.
\<close>

record Position =
  line :: nat
  character :: nat

record TextDocument =
  uri :: string
  getText :: string

fun split_lines :: "string \<Rightarrow> string list" where
  "split_lines [] = [[]]"
| "split_lines (c # cs) =
     (if c = CHR 0x0A then [] # split_lines cs
      else (case split_lines cs of l # ls \<Rightarrow> (c # l) # ls | [] \<Rightarrow> [[c]]))"

definition lineCount :: "TextDocument \<Rightarrow> nat" where
  "lineCount doc = length (split_lines (getText doc))"

text \<open>\<^verbatim>\<open>doc.lineAt(n).text\<close>; the editor throws for a line that does not exist.\<close>

definition lineAt :: "TextDocument \<Rightarrow> nat \<Rightarrow> error + string" where
  "lineAt doc n =
     (if n < lineCount doc then Inr (split_lines (getText doc) ! n)
      else Inl (Error ''Illegal value for `line`''))"

definition validatePosition :: "TextDocument \<Rightarrow> Position \<Rightarrow> Position" where
  "validatePosition doc pos =
     (let ls = split_lines (getText doc) in
      if line pos \<ge> length ls
      then \<lparr>line = length ls - 1, character = length (last ls)\<rparr>
      else \<lparr>line = line pos, character = min (character pos) (length (ls ! line pos))\<rparr>)"

definition positionAt :: "TextDocument \<Rightarrow> nat \<Rightarrow> Position" where
  "positionAt doc offset =
     (let front = take offset (getText doc) in
      \<lparr>line = length (filter (\<lambda>c. c = CHR 0x0A) front),
       character = length (takeWhile (\<lambda>c. c \<noteq> CHR 0x0A) (rev front))\<rparr>)"

definition offsetAt :: "TextDocument \<Rightarrow> Position \<Rightarrow> nat" where
  "offsetAt doc pos =
     (let p = validatePosition doc pos in
      sum_list (map (\<lambda>l. length l + 1) (take (line p) (split_lines (getText doc))))
        + character p)"

definition translate :: "Position \<Rightarrow> nat \<Rightarrow> Position" where
  "translate pos lineDelta = pos\<lparr>line := line pos + lineDelta\<rparr>"

definition isAfterOrEqual :: "Position \<Rightarrow> Position \<Rightarrow> bool" where
  "isAfterOrEqual p q =
     (line p > line q \<or> (line p = line q \<and> character p \<ge> character q))"

text \<open>The characters that \<^verbatim>\<open>\s\<close> matches, as far as they are among the 256 values
  of \<open>char\<close>: the ASCII white space and the no-break space.\<close>

definition js_space :: "char \<Rightarrow> bool" where
  "js_space c =
     (c \<in> set [CHR '' '', CHR 0x09, CHR 0x0A, CHR 0x0B, CHR 0x0C, CHR 0x0D, CHR 0xA0])"

definition isEmptyOrWhitespace :: "string \<Rightarrow> bool" where
  "isEmptyOrWhitespace t = list_all js_space t"

text \<open>\<^verbatim>\<open>text.search(/^#+\s+.*$/) >= 0\<close>: hash signs, white space, and a rest without
  line terminators.\<close>

definition is_header_line :: "string \<Rightarrow> bool" where
  "is_header_line t =
     (let r = dropWhile (\<lambda>c. c = CHR ''#'') t; r' = dropWhile js_space r
      in r \<noteq> t \<and> r' \<noteq> r \<and> CHR 0x0A \<notin> set r' \<and> CHR 0x0D \<notin> set r')"

type_synonym WorkspaceEdit = "(string \<times> Position \<times> string) list"

text \<open>
  The text with every insertion placed at its offset in the original text; \<open>i\<close> is
  the offset of the head of the remaining text.
\<close>

fun splice_inserts :: "nat \<Rightarrow> string \<Rightarrow> (nat \<times> string) list \<Rightarrow> string" where
  "splice_inserts i [] ins = concat (map snd (filter (\<lambda>e. fst e \<ge> i) ins))"
| "splice_inserts i (c # cs) ins =
     concat (map snd (filter (\<lambda>e. fst e = i) ins)) @ c # splice_inserts (Suc i) cs ins"

definition applyEdit :: "bool \<Rightarrow> TextDocument \<Rightarrow> WorkspaceEdit \<Rightarrow> bool \<times> TextDocument" where
  "applyEdit accepted doc edit =
     (if accepted then
        (True, doc\<lparr>getText :=
           splice_inserts 0 (getText doc)
             (map (\<lambda>(u, p, t). (offsetAt doc p, t))
                (filter (\<lambda>(u, p, t). u = uri doc) edit))\<rparr>)
      else (False, doc))"

subsection \<open>Building and injecting inline strings\<close>

record InlineString =
  position :: "Position option"
  val :: string
  document :: TextDocument

text \<open>
  Each element of \<open>values\<close> is a pair of a text to look for and its replacement.
  \<^verbatim>\<open>tpl.value!\<close> asserts that the template has been resolved. On an unresolved one
  the first \<^verbatim>\<open>content.replace\<close> throws; without any values JavaScript would carry
  \<^verbatim>\<open>undefined\<close> on into the result, which the typed model does not represent and
  reports as the same error.
\<close>

definition buildInlineString ::
  "TextDocument \<Rightarrow> InlineTemplate \<Rightarrow> (string \<times> string) list \<Rightarrow> error + InlineString" where
  "buildInlineString doc tpl values =
     (case it_value tpl of
        None \<Rightarrow> Inl TypeError
      | Some v \<Rightarrow>
          (let content = foldl (\<lambda>c v. js_replace c (fst v) (snd v)) v values in
           if length (it_after tpl) \<noteq> 0 then
             (let offset = js_indexOf (getText doc) (it_after tpl);
                  content' = (if starts_with (it_after tpl) ''#'' then LF @ content
                              else content);
                  pos = (if offset > 0
                         then translate (validatePosition doc (positionAt doc (nat offset))) 1
                         else \<lparr>line = 1, character = 0\<rparr>)
              in Inr \<lparr>position = Some pos, val = content', document = doc\<rparr>)
           else
             Inr \<lparr>position = Some \<lparr>line = 1, character = 0\<rparr>, val = LF @ content,
                  document = doc\<rparr>))"

text \<open>
  The first stage of \<^verbatim>\<open>injectInlineString\<close>, for the leading entry. Column 0 asks
  for a line of its own: when the target line is occupied the value gets a trailing
  line break, and a leading one at the end of the document.
\<close>

definition shift_occupied :: "TextDocument \<Rightarrow> bool \<Rightarrow> Position \<Rightarrow> string \<Rightarrow> error + string" where
  "shift_occupied doc newLine pos v =
     (if newLine then
        (case lineAt doc (line pos) of
           Inl e \<Rightarrow> Inl e
         | Inr target \<Rightarrow>
             if \<not> isEmptyOrWhitespace target then
               (case lineAt doc (lineCount doc - 1) of
                  Inl e \<Rightarrow> Inl e
                | Inr lastLine \<Rightarrow>
                    Inr ((if isAfterOrEqual pos
                               \<lparr>line = lineCount doc - 1, character = length lastLine\<rparr>
                          then LF @ v else v) @ LF))
             else Inr v)
      else Inr v)"

text \<open>When the following line is a header, one more line break is appended.\<close>

definition separate_header :: "TextDocument \<Rightarrow> bool \<Rightarrow> Position \<Rightarrow> string \<Rightarrow> error + string" where
  "separate_header doc newLine pos v =
     (if newLine \<and> lineCount doc > line (translate pos 1) then
        (case lineAt doc (line pos + 1) of
           Inl e \<Rightarrow> Inl e
         | Inr following \<Rightarrow> Inr (if is_header_line following then v @ LF else v))
      else Inr v)"

definition prepare_content :: "InlineString \<Rightarrow> error + InlineString" where
  "prepare_content content =
     (let doc = document content;
          pos0 = (case position content of None \<Rightarrow> \<lparr>line = 1, character = 0\<rparr>
                  | Some p \<Rightarrow> p);
          newLine = (character pos0 = 0);
          pos = validatePosition doc pos0
      in case shift_occupied doc newLine pos (val content) of
           Inl e \<Rightarrow> Inl e
         | Inr v1 \<Rightarrow>
             (case separate_header doc newLine pos v1 of
                Inl e \<Rightarrow> Inl e
              | Inr v2 \<Rightarrow> Inr (content\<lparr>position := Some pos, val := v2\<rparr>)))"

text \<open>
  The second stage: one edit that receives the insertion of the leading entry and then
  one insertion per further entry, its value followed by a line break. The editor
  rejects an insertion without a position.
\<close>

fun insert_others :: "InlineString list \<Rightarrow> error + WorkspaceEdit" where
  "insert_others [] = Inr []"
| "insert_others (c # cs) =
     (case position c of
        None \<Rightarrow> Inl (Error ''Invalid arguments'')
      | Some p \<Rightarrow>
          (case insert_others cs of
             Inl e \<Rightarrow> Inl e
           | Inr es \<Rightarrow> Inr ((uri (document c), p, val c @ LF) # es)))"

definition collect_edit :: "InlineString \<Rightarrow> InlineString list \<Rightarrow> error + WorkspaceEdit" where
  "collect_edit content other =
     (case position content of
        None \<Rightarrow> Inl (Error ''Invalid arguments'')
      | Some p \<Rightarrow>
          (case insert_others other of
             Inl e \<Rightarrow> Inl e
           | Inr es \<Rightarrow> Inr ((uri (document content), p, val content) # es)))"

text \<open>
  The third stage applies the edit in one call; \<open>accepted\<close> is the editor's answer.
  The promise resolves with the document, which then shows the edited text.
\<close>

definition injectInlineString ::
  "bool \<Rightarrow> InlineString \<Rightarrow> InlineString list \<Rightarrow> error + TextDocument" where
  "injectInlineString accepted content other =
     (case prepare_content content of
        Inl e \<Rightarrow> Inl e
      | Inr content' \<Rightarrow>
          (case collect_edit content' other of
             Inl e \<Rightarrow> Inl e
           | Inr edit \<Rightarrow>
               (case applyEdit accepted (document content') edit of
                  (True, doc') \<Rightarrow> Inr doc'
                | (False, _) \<Rightarrow> Inl (Error ''Failed to applied edit''))))"

definition injectString ::
  "bool \<Rightarrow> TextDocument \<Rightarrow> string \<Rightarrow> Position \<Rightarrow> error + TextDocument" where
  "injectString accepted doc content pos =
     injectInlineString accepted \<lparr>position = Some pos, val = content, document = doc\<rparr> []"

definition injectHeader :: "bool \<Rightarrow> TextDocument \<Rightarrow> string \<Rightarrow> error + TextDocument" where
  "injectHeader accepted doc content =
     injectString accepted doc content \<lparr>line = 0, character = 0\<rparr>"

text \<open>A value stands on a line of its own when one of the document's lines is exactly
  that value.\<close>

definition on_own_line :: "string \<Rightarrow> TextDocument \<Rightarrow> bool" where
  "on_own_line v doc = (v \<in> set (split_lines (getText doc)))"

text \<open>The user's input as far as \<^verbatim>\<open>buildNoteContent\<close> reads it.\<close>

record Input =
  input_text :: string
  input_tags :: "string list"
  input_scope :: "string option"

definition buildNoteContent ::
  "Platform \<Rightarrow> WorkspaceConfiguration \<Rightarrow> Input \<Rightarrow> error + string" where
  "buildNoteContent env cfg input =
     (case getNotesTemplate env cfg (input_scope input) of
        Inl e \<Rightarrow> Inl e
      | Inr ft \<Rightarrow>
          (case it_value ft of
             None \<Rightarrow> Inl TypeError
           | Some v \<Rightarrow>
               Inr (js_replace (js_replace v ''${input}'' (input_text input))
                      ''${tags}'' (js_join '' '' (input_tags input) @ LF))))"

section \<open>Sample inputs\<close>

text \<open>Concrete documents, templates and settings at which the results below are
  evaluated.\<close>

definition sample_doc_header_only :: TextDocument where
  "sample_doc_header_only = \<lparr>uri = ''file:///j/2026-11-03.md'', getText = ''# Tuesday''\<rparr>"

definition sample_doc_tasks_first :: TextDocument where
  "sample_doc_tasks_first =
     \<lparr>uri = ''file:///j/2026-11-03.md'', getText = ''## Tasks'' @ LF @ ''- tea''\<rparr>"

definition sample_tpl_tasks :: InlineTemplate where
  "sample_tpl_tasks =
     \<lparr>it_name = Some ''task'', it_scope = Some ''default'',
      it_template = Some ''- [ ] ${input}'', it_value = Some ''- [ ] ${input}'',
      it_after = ''## Tasks''\<rparr>"

text \<open>
  A POSIX platform for the examples. \<open>posix_normalize\<close> follows Node's
  \<^verbatim>\<open>path.posix.normalize\<close>: empty and \<^verbatim>\<open>.\<close> segments are dropped, \<^verbatim>\<open>..\<close> removes
  the segment before it, and a leading or a trailing separator is kept. The other two
  functions agree with \<^verbatim>\<open>path.format(path.parse(p))\<close> on a normalised path and with
  \<^verbatim>\<open>path.resolve(a, b)\<close> for an absolute \<open>a\<close>. \<open>sample_format\<close> lists what
  \<^verbatim>\<open>moment\<close> prints in the English locale for the morning of Tuesday, 3 November 2026,
  for the format codes that the examples use; text in square brackets is printed as it
  is.
\<close>

fun split_path :: "string \<Rightarrow> string list" where
  "split_path [] = [[]]"
| "split_path (c # cs) =
     (if c = CHR ''/'' then [] # split_path cs
      else (case split_path cs of l # ls \<Rightarrow> (c # l) # ls | [] \<Rightarrow> [[c]]))"

fun normalize_segments :: "bool \<Rightarrow> string list \<Rightarrow> string list \<Rightarrow> string list" where
  "normalize_segments allowAboveRoot res [] = res"
| "normalize_segments allowAboveRoot res (s # ss) =
     (if s = [] \<or> s = ''.'' then normalize_segments allowAboveRoot res ss
      else if s = ''..'' then
        (if res \<noteq> [] \<and> last res \<noteq> ''..''
         then normalize_segments allowAboveRoot (butlast res) ss
         else if allowAboveRoot then normalize_segments allowAboveRoot (res @ [''..'']) ss
         else normalize_segments allowAboveRoot res ss)
      else normalize_segments allowAboveRoot (res @ [s]) ss)"

definition posix_normalize :: "string \<Rightarrow> string" where
  "posix_normalize p =
     (if p = [] then ''.''
      else
        (let isAbsolute = (hd p = CHR ''/'');
             trailingSeparator = (last p = CHR ''/'');
             s = js_join ''/'' (normalize_segments (\<not> isAbsolute) [] (split_path p))
         in if s = [] then
              (if isAbsolute then ''/'' else if trailingSeparator then ''./'' else ''.'')
            else (if isAbsolute then ''/'' else []) @ s
                   @ (if trailingSeparator then ''/'' else [])))"

text \<open>Whether a path holds two separators in a row.\<close>

fun doubled_separator :: "string \<Rightarrow> bool" where
  "doubled_separator [] = False"
| "doubled_separator [a] = False"
| "doubled_separator (a # b # r) =
     ((a = CHR ''/'' \<and> b = CHR ''/'') \<or> doubled_separator (b # r))"

definition plain_segment :: "string \<Rightarrow> bool" where
  "plain_segment x = (x \<noteq> [] \<and> CHR ''/'' \<notin> set x)"

definition posix_format_parse :: "string \<Rightarrow> string" where
  "posix_format_parse p = (if length p > 1 \<and> last p = CHR ''/'' then butlast p else p)"

definition posix_resolve :: "string \<Rightarrow> string \<Rightarrow> string" where
  "posix_resolve a b =
     posix_format_parse (posix_normalize (if starts_with b ''/'' then b else a @ ''/'' @ b))"

definition sample_format :: "Date \<Rightarrow> string \<Rightarrow> string" where
  "sample_format date code =
     (if code = ''YYYY'' then ''2026''
      else if code = ''MM'' then ''11''
      else if code = ''DD'' then ''03''
      else if code = ''LT'' then ''9:30 AM''
      else if code = ''LL'' then ''November 3, 2026''
      else if code = ''dddd'' then ''Tuesday''
      else if code = ''[year]'' then ''year''
      else [])"

definition sample_platform :: Platform where
  "sample_platform =
     \<lparr>os_homedir = ''/home/ana'', workspaceRoot = [],
      path_normalize = posix_normalize, path_format_parse = posix_format_parse,
      path_resolve = posix_resolve, moment_format = sample_format,
      new_Date = 1793698200000\<rparr>"

text \<open>
  The defaults of the extension's manifest for \<^verbatim>\<open>base\<close>, \<^verbatim>\<open>ext\<close>, \<^verbatim>\<open>locale\<close>,
  \<^verbatim>\<open>patterns\<close> and \<^verbatim>\<open>templates\<close>. The manifest's default for \<^verbatim>\<open>scopes\<close>, an empty
  object, is not an array; \<open>get_scopes\<close> is left undefined here.
\<close>

definition manifest_patterns :: PatternDefinition where
  "manifest_patterns =
     \<lparr>pd_notes = Some \<lparr>pf_path = Some ''${base}/${year}/${month}/${day}'',
                         pf_file = Some ''${input}.${ext}''\<rparr>,
      pd_entries = Some \<lparr>pf_path = Some ''${base}/${year}/${month}'',
                           pf_file = Some ''${day}.${ext}''\<rparr>\<rparr>"

definition manifest_templates :: "TemplateSetting list" where
  "manifest_templates =
     [\<lparr>ts_name = ''entry'',
       ts_template =
         Some (''# ${year}-${month}-${day}'' @ LF @ LF @ ''## Tasks'' @ LF @ LF
               @ ''## Work Log'' @ LF @ LF @ ''## Meeting Log'' @ LF @ LF
               @ ''## Communication Log'' @ LF @ LF @ ''## Notes'' @ LF @ LF
               @ ''## Gratitude'' @ LF @ LF),
       ts_after = None\<rparr>,
      \<lparr>ts_name = ''time'', ts_template = Some ''${localTime}'', ts_after = None\<rparr>,
      \<lparr>ts_name = ''note'', ts_template = Some (''# ${input}'' @ LF @ LF @ ''${tags}'' @ LF),
       ts_after = None\<rparr>]"

definition manifest_settings :: WorkspaceConfiguration where
  "manifest_settings =
     \<lparr>get_string = (\<lambda>k. if k = ''ext'' then Some ''md''
                          else if k = ''base'' \<or> k = ''locale'' then Some [] else None),
      get_pattern = (\<lambda>k. if k = ''patterns'' then Some manifest_patterns else None),
      get_scopes = None,
      get_templates = Some manifest_templates\<rparr>"

text \<open>Settings with a scope \<^verbatim>\<open>work\<close> that brings its own path patterns, written with
  a doubled separator, and its own note template.\<close>

definition work_scope :: ScopeDefinition where
  "work_scope =
     \<lparr>sd_name = ''work'', sd_base = ''/srv/work'',
      sd_patterns =
        Some \<lparr>pd_notes = Some \<lparr>pf_path = Some ''${base}//notes/${year}'',
                                 pf_file = None\<rparr>,
              pd_entries = Some \<lparr>pf_path = Some ''${base}//entries/${year}'',
                                   pf_file = None\<rparr>\<rparr>,
      sd_templates =
        Some [\<lparr>ts_name = ''note'', ts_template = Some ''# Work: ${input}'',
               ts_after = None\<rparr>]\<rparr>"

definition scoped_settings :: WorkspaceConfiguration where
  "scoped_settings = manifest_settings\<lparr>get_scopes := Some [work_scope]\<rparr>"

text \<open>Settings with the legacy note template.\<close>

definition legacy_settings :: WorkspaceConfiguration where
  "legacy_settings =
     manifest_settings\<lparr>get_string :=
       (\<lambda>k. if k = ''tpl-note'' then Some ''Title: {content}''
            else get_string manifest_settings k)\<rparr>"

text \<open>Settings whose entry patterns use \<^verbatim>\<open>${homeDir}\<close> and \<^verbatim>\<open>${input}\<close>.\<close>

definition home_settings :: WorkspaceConfiguration where
  "home_settings =
     manifest_settings\<lparr>get_pattern :=
       (\<lambda>k. if k = ''patterns''
            then Some \<lparr>pd_notes = None,
                       pd_entries = Some \<lparr>pf_path = Some ''${homeDir}/journal/${year}'',
                                            pf_file = Some ''${day} ${input}.${ext}''\<rparr>\<rparr>
            else None)\<rparr>"

text \<open>A journal page with an empty line below the anchor \<^verbatim>\<open>Tasks:\<close>, and a template
  that places its content below that anchor.\<close>

definition sample_doc_tasks_blank :: TextDocument where
  "sample_doc_tasks_blank =
     \<lparr>uri = ''file:///j/2026-11-03.md'', getText = ''# Tuesday'' @ LF @ ''Tasks:'' @ LF\<rparr>"

definition sample_tpl_plain_anchor :: InlineTemplate where
  "sample_tpl_plain_anchor =
     \<lparr>it_name = Some ''task'', it_scope = Some ''default'',
      it_template = Some ''- ${input}'', it_value = Some ''- ${input}'',
      it_after = ''Tasks:''\<rparr>"

definition sample_entry_tea :: InlineString where
  "sample_entry_tea =
     \<lparr>position = Some \<lparr>line = 2, character = 0\<rparr>, val = ''- tea'',
      document = sample_doc_tasks_blank\<rparr>"

definition sample_entry_milk :: InlineString where
  "sample_entry_milk =
     \<lparr>position = Some \<lparr>line = 2, character = 0\<rparr>, val = ''- milk'',
      document = sample_doc_tasks_blank\<rparr>"

text \<open>The same page with an entry on the line below the anchor.\<close>

definition sample_doc_tasks_listed :: TextDocument where
  "sample_doc_tasks_listed =
     \<lparr>uri = ''file:///j/2026-11-03.md'',
      getText = ''# Tuesday'' @ LF @ ''Tasks:'' @ LF @ ''- bread'' @ LF\<rparr>"

section \<open>Facts about the string primitives\<close>

lemma starts_with_append: "starts_with (p @ s) p"
  by (simp add: starts_with_def)


lemma index_of_None_iff:
  "index_of s p = None \<longleftrightarrow> (\<forall>pre post. s \<noteq> pre @ p @ post)"
proof (induction s)
  case Nil
  then show ?case by auto
next
  case (Cons c cs)
  show ?case
  proof (cases "starts_with (c # cs) p")
    case True
    then have "c # cs = [] @ p @ drop (length p) (c # cs)"
      unfolding starts_with_def by (metis append_Nil append_take_drop_id)
    with True show ?thesis by (metis index_of.simps(2) option.distinct(1))
  next
    case False
    have ex: "(\<exists>pre post. c # cs = pre @ p @ post) \<longleftrightarrow> (\<exists>pre post. cs = pre @ p @ post)"
    proof
      assume "\<exists>pre post. c # cs = pre @ p @ post"
      then obtain pre post where e: "c # cs = pre @ p @ post" by blast
      show "\<exists>pre post. cs = pre @ p @ post"
      proof (cases pre)
        case Nil
        with e have "starts_with (c # cs) p" by (simp add: starts_with_def)
        with False show ?thesis by simp
      next
        case (Cons a pre')
        with e have "cs = pre' @ p @ post" by simp
        then show ?thesis by blast
      qed
    next
      assume "\<exists>pre post. cs = pre @ p @ post"
      then obtain pre post where "cs = pre @ p @ post" by blast
      then have "c # cs = (c # pre) @ p @ post" by simp
      then show "\<exists>pre post. c # cs = pre @ p @ post" by blast
    qed
    from False have "index_of (c # cs) p = None \<longleftrightarrow> index_of cs p = None" by simp
    also have "\<dots> \<longleftrightarrow> \<not> (\<exists>pre post. cs = pre @ p @ post)" using Cons.IH by blast
    also have "\<dots> \<longleftrightarrow> \<not> (\<exists>pre post. c # cs = pre @ p @ post)" using ex by blast
    finally show ?thesis by blast
  qed
qed

lemma index_of_first:
  assumes "\<forall>a b. pre @ p = a @ p @ b \<longrightarrow> b = []"
  shows "index_of (pre @ p @ post) p = Some (length pre)"
  using assms
proof (induction pre)
  case Nil
  have "starts_with (p @ post) p" by (simp add: starts_with_def)
  then show ?case by (cases "p @ post") auto
next
  case (Cons c pre)
  have nost: "\<not> starts_with ((c # pre) @ p @ post) p"
  proof
    assume "starts_with ((c # pre) @ p @ post) p"
    then have tk: "take (length p) (c # pre @ p @ post) = p" by (simp add: starts_with_def)
    have "length p \<le> length (c # pre @ p)" by simp
    then have "take (length p) (c # pre @ p @ post) = take (length p) (c # pre @ p)"
      by (metis append.assoc append_Cons take_append diff_is_0_eq take_0 append_Nil2)
    with tk have "take (length p) (c # pre @ p) = p" by simp
    then have "(c # pre) @ p = [] @ p @ drop (length p) (c # pre @ p)"
      by (metis append_Cons append_Nil append_take_drop_id)
    with Cons.prems have "drop (length p) (c # pre @ p) = []" by blast
    then show False by simp
  qed
  have "\<forall>a b. pre @ p = a @ p @ b \<longrightarrow> b = []"
  proof (intro allI impI)
    fix a b assume "pre @ p = a @ p @ b"
    then have "(c # pre) @ p = (c # a) @ p @ b" by simp
    with Cons.prems show "b = []" by blast
  qed
  from Cons.IH[OF this] nost show ?case by simp
qed

lemma get_substitution_no_dollar:
  "CHR ''$'' \<notin> set r \<Longrightarrow> get_substitution m pre post r = r"
  by (induction m pre post r rule: get_substitution.induct) auto


lemma append_self_both: "p = a @ p @ b \<Longrightarrow> a = [] \<and> b = []"
proof -
  assume "p = a @ p @ b"
  then have "length p = length (a @ p @ b)" by simp
  then show ?thesis by simp
qed

lemma index_of_starts_with:
  "p \<noteq> [] \<Longrightarrow> starts_with s p \<Longrightarrow> index_of s p = Some 0"
  by (cases s) (auto simp: starts_with_def)


section \<open>Literal variable substitution\<close>














section \<open>Position of an inline string\<close>

text \<open>
  Claim C6. When the template of a resolved inline template names a non-empty anchor
  that does not occur in the document, \<open>buildInlineString\<close> resolves, with the
  default position line 1, column 0.
\<close>

theorem buildInlineString_anchor_absent:
  assumes "it_after tpl \<noteq> []"
    and "\<forall>pre post. getText doc \<noteq> pre @ it_after tpl @ post"
    and "it_value tpl = Some v"
  shows "buildInlineString doc tpl values =
           Inr \<lparr>position = Some \<lparr>line = 1, character = 0\<rparr>,
                val = (if starts_with (it_after tpl) ''#'' then LF else []) @
                      foldl (\<lambda>c v. js_replace c (fst v) (snd v)) v values,
                document = doc\<rparr>"
proof -
  from assms(2) have "index_of (getText doc) (it_after tpl) = None"
    by (simp add: index_of_None_iff)
  then have "js_indexOf (getText doc) (it_after tpl) = -1"
    by (simp add: js_indexOf_def)
  with assms(1,3) show ?thesis
    by (simp add: buildInlineString_def Let_def)
qed


theorem buildInlineString_anchor_absent_witness:
  "it_after sample_tpl_tasks \<noteq> [] \<and>
   (\<forall>pre post. getText sample_doc_header_only \<noteq> pre @ it_after sample_tpl_tasks @ post) \<and>
   it_value sample_tpl_tasks = Some ''- [ ] ${input}'' \<and>
   buildInlineString sample_doc_header_only sample_tpl_tasks [(''${input}'', ''call Ana'')] =
     Inr \<lparr>position = Some \<lparr>line = 1, character = 0\<rparr>,
          val = LF @ ''- [ ] call Ana'', document = sample_doc_header_only\<rparr>"
proof -
  have a: "it_after sample_tpl_tasks \<noteq> []" by (simp add: sample_tpl_tasks_def)
  have "index_of (getText sample_doc_header_only) (it_after sample_tpl_tasks) = None"
    by (simp add: sample_doc_header_only_def sample_tpl_tasks_def starts_with_def)
  then have n: "\<forall>pre post.
      getText sample_doc_header_only \<noteq> pre @ it_after sample_tpl_tasks @ post"
    by (rule iffD1[OF index_of_None_iff])
  have v: "it_value sample_tpl_tasks = Some ''- [ ] ${input}''"
    by (simp add: sample_tpl_tasks_def)
  have s: "starts_with (it_after sample_tpl_tasks) ''#''"
    by (simp add: sample_tpl_tasks_def starts_with_def)
  have r: "js_replace ''- [ ] ${input}'' ''${input}'' ''call Ana'' = ''- [ ] call Ana''"
    by (simp add: js_replace_def starts_with_def)
  from buildInlineString_anchor_absent[OF a n v, of "[(''${input}'', ''call Ana'')]"] s r
  have "buildInlineString sample_doc_header_only sample_tpl_tasks [(''${input}'', ''call Ana'')] =
     Inr \<lparr>position = Some \<lparr>line = 1, character = 0\<rparr>,
          val = LF @ ''- [ ] call Ana'', document = sample_doc_header_only\<rparr>"
    by simp
  with a n v show ?thesis by blast
qed

text \<open>
  Claim C10. When the document begins with the anchor, \<^verbatim>\<open>indexOf\<close> yields 0 and the
  position stays line 1, column 0; a position other than that default is only produced
  for a strictly positive offset.
\<close>

theorem buildInlineString_anchor_at_offset_zero:
  assumes "it_after tpl \<noteq> []" and "it_value tpl = Some v"
  shows "(starts_with (getText doc) (it_after tpl) \<longrightarrow>
            js_indexOf (getText doc) (it_after tpl) = 0 \<and>
            map_sum id position (buildInlineString doc tpl values) =
              Inr (Some \<lparr>line = 1, character = 0\<rparr>)) \<and>
         (map_sum id position (buildInlineString doc tpl values) \<noteq>
              Inr (Some \<lparr>line = 1, character = 0\<rparr>) \<longrightarrow>
            js_indexOf (getText doc) (it_after tpl) > 0)"
proof (intro conjI impI)
  assume "starts_with (getText doc) (it_after tpl)"
  with assms(1) have "index_of (getText doc) (it_after tpl) = Some 0"
    by (rule index_of_starts_with)
  then show z: "js_indexOf (getText doc) (it_after tpl) = 0"
    by (simp add: js_indexOf_def)
  with assms show "map_sum id position (buildInlineString doc tpl values) =
      Inr (Some \<lparr>line = 1, character = 0\<rparr>)"
    by (simp add: buildInlineString_def Let_def)
next
  assume ne: "map_sum id position (buildInlineString doc tpl values) \<noteq>
      Inr (Some \<lparr>line = 1, character = 0\<rparr>)"
  show "js_indexOf (getText doc) (it_after tpl) > 0"
  proof (rule ccontr)
    assume "\<not> js_indexOf (getText doc) (it_after tpl) > 0"
    with assms have "map_sum id position (buildInlineString doc tpl values) =
      Inr (Some \<lparr>line = 1, character = 0\<rparr>)"
      by (simp add: buildInlineString_def Let_def)
    with ne show False by simp
  qed
qed

theorem buildInlineString_anchor_at_offset_zero_witness:
  "it_after sample_tpl_tasks \<noteq> [] \<and>
   it_value sample_tpl_tasks = Some ''- [ ] ${input}'' \<and>
   starts_with (getText sample_doc_tasks_first) (it_after sample_tpl_tasks) \<and>
   js_indexOf (getText sample_doc_tasks_first) (it_after sample_tpl_tasks) = 0 \<and>
   map_sum id position (buildInlineString sample_doc_tasks_first sample_tpl_tasks []) =
     Inr (Some \<lparr>line = 1, character = 0\<rparr>)"
proof -
  have a: "it_after sample_tpl_tasks \<noteq> []" by (simp add: sample_tpl_tasks_def)
  have v: "it_value sample_tpl_tasks = Some ''- [ ] ${input}''"
    by (simp add: sample_tpl_tasks_def)
  have s: "starts_with (getText sample_doc_tasks_first) (it_after sample_tpl_tasks)"
    by (simp add: sample_tpl_tasks_def sample_doc_tasks_first_def starts_with_def)
  from buildInlineString_anchor_at_offset_zero[OF a v, of sample_doc_tasks_first "[]"] s
  have "js_indexOf (getText sample_doc_tasks_first) (it_after sample_tpl_tasks) = 0 \<and>
        map_sum id position (buildInlineString sample_doc_tasks_first sample_tpl_tasks []) =
          Inr (Some \<lparr>line = 1, character = 0\<rparr>)"
    by blast
  with a v s show ?thesis by blast
qed

section \<open>Pattern lookup\<close>

text \<open>Whatever the settings hold, the pattern that a resolver returns is not empty.\<close>

lemma default_or_override_nonempty:
  "d \<noteq> [] \<Longrightarrow> (case x of None \<Rightarrow> d | Some y \<Rightarrow> if length y = 0 then d else y) \<noteq> []"
  by (cases x) auto

lemma notes_path_template_never_empty:
  "getNotesPathPattern env cfg date scopeId = Inr st \<Longrightarrow> st_template st \<noteq> []"
  unfolding getNotesPathPattern_def Let_def
  by (cases "getBasePath env cfg scopeId")
     (auto simp: default_or_override_nonempty DefaultPatternDefinition_notes_path_def
       simp del: length_0_conv)

lemma notes_file_template_never_empty:
  "getNotesFilePattern env cfg date input scopeId = Inr st \<Longrightarrow> st_template st \<noteq> []"
  unfolding getNotesFilePattern_def Let_def
  by (cases "getFileExtension cfg")
     (auto simp: default_or_override_nonempty DefaultPatternDefinition_notes_file_def
       simp del: length_0_conv)

lemma entry_path_template_never_empty:
  "getEntryPathPattern env cfg date scopeId = Inr st \<Longrightarrow> st_template st \<noteq> []"
  unfolding getEntryPathPattern_def Let_def
  by (cases "getBasePath env cfg scopeId")
     (auto simp: default_or_override_nonempty DefaultPatternDefinition_entries_path_def
       simp del: length_0_conv)

lemma entry_file_template_never_empty:
  "getEntryFilePattern env cfg date scopeId = Inr st \<Longrightarrow> st_template st \<noteq> []"
  unfolding getEntryFilePattern_def Let_def
  by (cases "getFileExtension cfg")
     (auto simp: default_or_override_nonempty DefaultPatternDefinition_entries_file_def
       simp del: length_0_conv)

text \<open>
  Claim C1. The lookup should return the configured pattern when there is one. With the
  settings of the manifest, which configure the note path under \<^verbatim>\<open>patterns\<close>, the
  note-path resolver returns the built-in default instead, because it reads the key
  \<^verbatim>\<open>pattern\<close>; the entry-path resolver, which reads \<^verbatim>\<open>patterns\<close>, returns the
  configured pattern.
\<close>

theorem getNotesPathPattern_ignores_patterns_setting:
  "Option.bind (Option.bind (get_pattern manifest_settings ''patterns'') pd_notes) pf_path =
     Some ''${base}/${year}/${month}/${day}'' \<and>
   map_sum id st_template (getNotesPathPattern env manifest_settings date None) =
     Inr ''${base}/notes'' \<and>
   map_sum id st_template (getEntryPathPattern env manifest_settings date None) =
     Inr ''${base}/${year}/${month}''"
  by (simp add: getNotesPathPattern_def getEntryPathPattern_def manifest_settings_def
      manifest_patterns_def resolveScope_def getBasePath_def Let_def
      DefaultPatternDefinition_notes_path_def)


section \<open>Inline template lookup\<close>

text \<open>
  Claim C2. The second tier of the fallback should be the named entry in the template
  list of the requested scope. For every scope other than the default one the lookup
  returns the hard-coded default body whenever the legacy key is empty, whatever the
  scope's template list holds.
\<close>

theorem getInlineTemplate_scope_templates_unused:
  assumes "resolveScope (Some scopeId) \<noteq> SCOPE_DEFAULT"
    and "\<not> stringIsNotEmpty (get_string cfg (''tpl-'' @ ident))"
  shows "getInlineTemplate cfg ident defaultValue scopeId =
           \<lparr>it_name = Some ident, it_scope = Some SCOPE_DEFAULT,
            it_template = Some defaultValue, it_value = None, it_after = []\<rparr>"
  using assms by (simp add: getInlineTemplate_def Let_def)

theorem getInlineTemplate_scope_templates_unused_witness:
  "resolveScope (Some ''work'') \<noteq> SCOPE_DEFAULT \<and>
   \<not> stringIsNotEmpty (get_string scoped_settings (''tpl-'' @ ''note'')) \<and>
   Option.bind (get_scopes scoped_settings)
     (\<lambda>scopes. Option.bind (js_pop (filter (\<lambda>sd. sd_name sd = ''work'') scopes)) sd_templates) =
     Some [\<lparr>ts_name = ''note'', ts_template = Some ''# Work: ${input}'', ts_after = None\<rparr>] \<and>
   getInlineTemplate scoped_settings ''note'' (''# ${input}'' @ LF @ ''${tags}'' @ LF) ''work'' =
     \<lparr>it_name = Some ''note'', it_scope = Some SCOPE_DEFAULT,
      it_template = Some (''# ${input}'' @ LF @ ''${tags}'' @ LF), it_value = None,
      it_after = []\<rparr>"
proof -
  have a: "resolveScope (Some ''work'') \<noteq> SCOPE_DEFAULT"
    by (simp add: resolveScope_def SCOPE_DEFAULT_def)
  have b: "\<not> stringIsNotEmpty (get_string scoped_settings (''tpl-'' @ ''note''))"
    by (simp add: scoped_settings_def manifest_settings_def stringIsNotEmpty_def)
  have c: "Option.bind (get_scopes scoped_settings)
     (\<lambda>scopes. Option.bind (js_pop (filter (\<lambda>sd. sd_name sd = ''work'') scopes)) sd_templates) =
     Some [\<lparr>ts_name = ''note'', ts_template = Some ''# Work: ${input}'', ts_after = None\<rparr>]"
    by (simp add: scoped_settings_def work_scope_def js_pop_def)
  from getInlineTemplate_scope_templates_unused[OF a b] c a b show ?thesis by blast
qed

section \<open>Date tokens\<close>

text \<open>A template in which the expression finds no token is returned as it is.\<close>

lemma replaceDateFormats_no_tokens:
  "match_date_formats template = [] \<Longrightarrow> replaceDateFormats env template date = template"
  by (simp add: replaceDateFormats_def)

lemma nested_template_matches:
  "match_date_formats ''${${d:[year]}}${year}'' = [''${d:[year]}'', ''${year}'']"
  by (simp add: match_date_formats_def match_at_def match_fixed_def match_custom_def
      date_token_names_def starts_with_def)

text \<open>
  Claim C4. Every occurrence of a recognised token should be replaced and all other
  text be left alone. Each match is replaced by \<^verbatim>\<open>template.replace(match, ...)\<close> on
  the template as changed so far, which rewrites the first place where the text of the
  match now occurs. In \<^verbatim>\<open>${${d:[year]}}${year}\<close> the first match prints \<^verbatim>\<open>year\<close>
  between \<^verbatim>\<open>${\<close> and \<^verbatim>\<open>}\<close>; the replacement for the second match then lands there,
  and the token \<^verbatim>\<open>${year}\<close> at the end stays.
\<close>

theorem replaceDateFormats_leaves_token:
  assumes "moment_format env date ''[year]'' = ''year''"
    and "moment_format env date ''YYYY'' = ''2026''"
  shows "match_date_formats ''${${d:[year]}}${year}'' = [''${d:[year]}'', ''${year}''] \<and>
         replaceDateFormats env ''${${d:[year]}}${year}'' date = ''2026${year}''"
proof -
  have m: "js_substring ''${d:[year]}'' (nat (js_indexOf ''${d:[year]}'' ''d:'' + 2))
             (length ''${d:[year]}'' - 1) = ''[year]''"
    by (simp add: js_substring_def js_indexOf_def starts_with_def)
  have 1: "replace_match (moment_format env date) ''${${d:[year]}}${year}'' ''${d:[year]}'' =
             ''${year}${year}''"
    unfolding replace_match_def Let_def m
    by (simp add: assms js_replace_def starts_with_def)
  have 2: "replace_match (moment_format env date) ''${year}${year}'' ''${year}'' =
             ''2026${year}''"
    unfolding replace_match_def
    by (simp add: assms js_replace_def starts_with_def)
  show ?thesis
    by (simp only: replaceDateFormats_def nested_template_matches foldl.simps 1 2 simp_thms)
qed

theorem replaceDateFormats_leaves_token_witness:
  "moment_format sample_platform 1793698200000 ''[year]'' = ''year'' \<and>
   moment_format sample_platform 1793698200000 ''YYYY'' = ''2026'' \<and>
   replaceDateFormats sample_platform ''${${d:[year]}}${year}'' 1793698200000 = ''2026${year}''"
proof -
  have a: "moment_format sample_platform 1793698200000 ''[year]'' = ''year''"
    by (simp add: sample_platform_def sample_format_def)
  have b: "moment_format sample_platform 1793698200000 ''YYYY'' = ''2026''"
    by (simp add: sample_platform_def sample_format_def)
  from replaceDateFormats_leaves_token[OF a b] a b show ?thesis by blast
qed


section \<open>Content of a note\<close>

lemma index_of_absent_head: "c \<notin> set s \<Longrightarrow> index_of s (c # p) = None"
  by (induction s) (auto simp: starts_with_def)

lemma legacy_note_rewritten:
  "js_replace ''Title: {content}'' ''{content}'' ''${input}'' = ''Title: ${input}''"
  by (simp add: js_replace_def starts_with_def)

lemma legacy_note_no_date_tokens: "match_date_formats ''Title: ${input}'' = []"
  by (simp add: match_date_formats_def match_at_def match_fixed_def match_custom_def
      date_token_names_def starts_with_def)

lemma getNotesTemplate_legacy:
  assumes "get_string cfg ''tpl-note'' = Some ''Title: {content}''"
  shows "map_sum id it_value (getNotesTemplate env cfg scopeId) = Inr (Some ''Title: ${input}'')"
  using assms
  by (simp add: getNotesTemplate_def getInlineTemplate_def stringIsNotEmpty_def Let_def
      legacy_note_rewritten replaceDateFormats_no_tokens[OF legacy_note_no_date_tokens])

lemma buildNoteContent_legacy:
  assumes "get_string cfg ''tpl-note'' = Some ''Title: {content}''"
  shows "buildNoteContent env cfg input =
           Inr (js_replace (js_replace ''Title: ${input}'' ''${input}'' (input_text input))
                  ''${tags}'' (js_join '' '' (input_tags input) @ LF))"
proof -
  from getNotesTemplate_legacy[OF assms, of env "input_scope input"]
  obtain ft where "getNotesTemplate env cfg (input_scope input) = Inr ft"
    and "it_value ft = Some ''Title: ${input}''"
    by (cases "getNotesTemplate env cfg (input_scope input)") auto
  then show ?thesis by (simp add: buildNoteContent_def)
qed

lemma buildNoteContent_legacy_plain:
  assumes "get_string cfg ''tpl-note'' = Some ''Title: {content}''"
    and "CHR ''$'' \<notin> set (input_text input)"
  shows "buildNoteContent env cfg input = Inr (''Title: '' @ input_text input)"
proof -
  have i: "index_of ''Title: ${input}'' ''${input}'' = Some 7"
    by (simp add: starts_with_def)
  have 1: "js_replace ''Title: ${input}'' ''${input}'' (input_text input) =
      ''Title: '' @ input_text input"
    unfolding js_replace_def i using assms(2) by (simp add: get_substitution_no_dollar)
  have "CHR ''$'' \<notin> set (''Title: '' @ input_text input)" using assms(2) by simp
  then have "index_of (''Title: '' @ input_text input) ''${tags}'' = None"
    by (rule index_of_absent_head)
  then have 2: "js_replace (''Title: '' @ input_text input) ''${tags}'' x =
      ''Title: '' @ input_text input" for x
    by (simp add: js_replace_def)
  show ?thesis by (simp only: buildNoteContent_legacy[OF assms(1)] 1 2)
qed

text \<open>
  Claim C8. With the legacy key \<^verbatim>\<open>tpl-note\<close> set to \<^verbatim>\<open>Title: {content}\<close> the content
  of a note should be \<^verbatim>\<open>Title: \<close> followed by the user's text. It is for a text
  without a dollar sign (\<open>buildNoteContent_legacy_plain\<close>). The text is passed to
  \<^verbatim>\<open>replace\<close> as the replacement, where \<^verbatim>\<open>$$\<close> stands for one dollar sign: the
  text \<^verbatim>\<open>Budget $$$\<close> arrives as \<^verbatim>\<open>Budget $$\<close>.
\<close>

theorem buildNoteContent_legacy_dollar:
  assumes "get_string cfg ''tpl-note'' = Some ''Title: {content}''"
    and "input_text input = ''Budget $$$''"
  shows "buildNoteContent env cfg input = Inr ''Title: Budget $$''"
proof -
  have 1: "js_replace ''Title: ${input}'' ''${input}'' ''Budget $$$'' = ''Title: Budget $$''"
    by (simp add: js_replace_def starts_with_def)
  have 2: "js_replace ''Title: Budget $$'' ''${tags}'' x = ''Title: Budget $$''" for x
    by (simp add: js_replace_def starts_with_def)
  show ?thesis by (simp only: buildNoteContent_legacy[OF assms(1)] assms(2) 1 2)
qed

theorem buildNoteContent_legacy_dollar_witness:
  "get_string legacy_settings ''tpl-note'' = Some ''Title: {content}'' \<and>
   buildNoteContent sample_platform legacy_settings
     \<lparr>input_text = ''Budget $$$'', input_tags = [], input_scope = None\<rparr> =
     Inr ''Title: Budget $$''"
proof -
  have a: "get_string legacy_settings ''tpl-note'' = Some ''Title: {content}''"
    by (simp add: legacy_settings_def)
  from buildNoteContent_legacy_dollar[OF a,
      of "\<lparr>input_text = ''Budget $$$'', input_tags = [], input_scope = None\<rparr>" sample_platform]
    a show ?thesis by simp
qed

section \<open>Substitution order of the resolvers\<close>

text \<open>
  Claim C7, as stated: every path resolver substitutes \<^verbatim>\<open>homeDir\<close>, then \<^verbatim>\<open>base\<close>,
  then the date tokens, and every file resolver \<^verbatim>\<open>ext\<close>, then \<^verbatim>\<open>input\<close>, then the
  date tokens. The entry resolvers do less: with an entry path pattern
  \<^verbatim>\<open>${homeDir}/journal/${year}\<close> the entry-path resolver leaves \<^verbatim>\<open>${homeDir}\<close> in the
  value, where the claimed order would give \<^verbatim>\<open>/home/ana/journal/2026\<close>, and with an
  entry file pattern \<^verbatim>\<open>${day} ${input}.${ext}\<close> the entry-file resolver, which takes no
  input, leaves \<^verbatim>\<open>${input}\<close>.
\<close>

theorem entry_resolvers_skip_homeDir_and_input:
  "map_sum id st_value (getEntryPathPattern sample_platform home_settings 1793698200000 None) =
     Inr (Some ''${homeDir}/journal/2026'') \<and>
   getBasePath sample_platform home_settings None = Inr ''/home/ana/Journal'' \<and>
   path_normalize sample_platform
     (replaceDateFormats sample_platform
        (replaceVariableValue ''base'' ''/home/ana/Journal''
           (replaceVariableValue ''homeDir'' (os_homedir sample_platform)
              ''${homeDir}/journal/${year}''))
        1793698200000) = ''/home/ana/journal/2026'' \<and>
   map_sum id st_value (getEntryFilePattern sample_platform home_settings 1793698200000 None) =
     Inr (Some ''03 ${input}.md'')"
  by code_simp

text \<open>
  Claim C7, amended. The value with which a resolver resolves is its template after
  these substitutions, in this order: note path \<^verbatim>\<open>homeDir\<close>, \<^verbatim>\<open>base\<close>, date tokens;
  entry path \<^verbatim>\<open>base\<close>, date tokens (and then path normalisation); note file
  \<^verbatim>\<open>ext\<close>, \<^verbatim>\<open>input\<close>, date tokens; entry file \<^verbatim>\<open>ext\<close>, date tokens. The
  statement is not empty: a path resolver resolves whenever the base path of the
  requested scope does, and in the default scope a file resolver resolves whenever the
  file extension is defined.
\<close>

theorem resolver_substitution_order:
  "(\<forall>st. getNotesPathPattern env cfg date scopeId = Inr st \<longrightarrow>
      (\<exists>base. getBasePath env cfg scopeId = Inr base \<and>
         st_value st =
           Some (replaceDateFormats env
                  (replaceVariableValue ''base'' base
                    (replaceVariableValue ''homeDir'' (os_homedir env) (st_template st)))
                  date))) \<and>
   (\<forall>st. getEntryPathPattern env cfg date scopeId = Inr st \<longrightarrow>
      (\<exists>base. getBasePath env cfg scopeId = Inr base \<and>
         st_value st =
           Some (path_normalize env
                  (replaceDateFormats env
                    (replaceVariableValue ''base'' base (st_template st)) date)))) \<and>
   (\<forall>st. getNotesFilePattern env cfg date input scopeId = Inr st \<longrightarrow>
      (\<exists>ext. getFileExtension cfg = Inr ext \<and>
         st_value st =
           Some (replaceDateFormats env
                  (replaceVariableValue ''input'' input
                    (replaceVariableValue ''ext'' ext (st_template st)))
                  date))) \<and>
   (\<forall>st. getEntryFilePattern env cfg date scopeId = Inr st \<longrightarrow>
      (\<exists>ext. getFileExtension cfg = Inr ext \<and>
         st_value st =
           Some (replaceDateFormats env
                  (replaceVariableValue ''ext'' ext (st_template st)) date))) \<and>
   (\<forall>base. getBasePath env cfg scopeId = Inr base \<longrightarrow>
      (\<exists>st. getNotesPathPattern env cfg date scopeId = Inr st) \<and>
      (\<exists>st. getEntryPathPattern env cfg date scopeId = Inr st)) \<and>
   (\<forall>ext. resolveScope scopeId = SCOPE_DEFAULT \<and> getFileExtension cfg = Inr ext \<longrightarrow>
      (\<exists>st. getNotesFilePattern env cfg date input scopeId = Inr st) \<and>
      (\<exists>st. getEntryFilePattern env cfg date scopeId = Inr st))"
proof (intro conjI allI impI)
  fix st assume "getNotesPathPattern env cfg date scopeId = Inr st"
  then show "\<exists>base. getBasePath env cfg scopeId = Inr base \<and>
      st_value st =
        Some (replaceDateFormats env
               (replaceVariableValue ''base'' base
                 (replaceVariableValue ''homeDir'' (os_homedir env) (st_template st)))
               date)"
    unfolding getNotesPathPattern_def Let_def
    by (cases "getBasePath env cfg scopeId") auto
next
  fix st assume "getEntryPathPattern env cfg date scopeId = Inr st"
  then show "\<exists>base. getBasePath env cfg scopeId = Inr base \<and>
      st_value st =
        Some (path_normalize env
               (replaceDateFormats env
                 (replaceVariableValue ''base'' base (st_template st)) date))"
    unfolding getEntryPathPattern_def Let_def
    by (cases "getBasePath env cfg scopeId") auto
next
  fix st assume "getNotesFilePattern env cfg date input scopeId = Inr st"
  then show "\<exists>ext. getFileExtension cfg = Inr ext \<and>
      st_value st =
        Some (replaceDateFormats env
               (replaceVariableValue ''input'' input
                 (replaceVariableValue ''ext'' ext (st_template st)))
               date)"
    unfolding getNotesFilePattern_def Let_def
    by (cases "getFileExtension cfg") auto
next
  fix st assume "getEntryFilePattern env cfg date scopeId = Inr st"
  then show "\<exists>ext. getFileExtension cfg = Inr ext \<and>
      st_value st =
        Some (replaceDateFormats env
               (replaceVariableValue ''ext'' ext (st_template st)) date)"
    unfolding getEntryFilePattern_def Let_def
    by (cases "getFileExtension cfg") auto
next
  fix base assume "getBasePath env cfg scopeId = Inr base"
  then show "\<exists>st. getNotesPathPattern env cfg date scopeId = Inr st"
    by (simp add: getNotesPathPattern_def Let_def)
next
  fix base assume "getBasePath env cfg scopeId = Inr base"
  then show "\<exists>st. getEntryPathPattern env cfg date scopeId = Inr st"
    by (simp add: getEntryPathPattern_def Let_def)
next
  fix ext assume "resolveScope scopeId = SCOPE_DEFAULT \<and> getFileExtension cfg = Inr ext"
  then show "\<exists>st. getNotesFilePattern env cfg date input scopeId = Inr st"
    by (simp add: getNotesFilePattern_def Let_def)
next
  fix ext assume "resolveScope scopeId = SCOPE_DEFAULT \<and> getFileExtension cfg = Inr ext"
  then show "\<exists>st. getEntryFilePattern env cfg date scopeId = Inr st"
    by (simp add: getEntryFilePattern_def Let_def)
qed

theorem resolver_substitution_order_witness:
  "getEntryPathPattern sample_platform home_settings 1793698200000 None =
     Inr \<lparr>st_name = None, st_scope = Some ''default'',
          st_template = ''${homeDir}/journal/${year}'',
          st_value = Some ''${homeDir}/journal/2026''\<rparr> \<and>
   getBasePath sample_platform home_settings None = Inr ''/home/ana/Journal'' \<and>
   Some ''${homeDir}/journal/2026'' =
     Some (path_normalize sample_platform
            (replaceDateFormats sample_platform
              (replaceVariableValue ''base'' ''/home/ana/Journal'' ''${homeDir}/journal/${year}'')
              1793698200000)) \<and>
   getNotesFilePattern sample_platform home_settings 1793698200000 ''Plan'' None =
     Inr \<lparr>st_name = None, st_scope = Some ''default'',
          st_template = ''N${year}${month}${day}_${input}.${ext}'',
          st_value = Some ''N20261103_Plan.md''\<rparr> \<and>
   getFileExtension home_settings = Inr ''md'' \<and>
   Some ''N20261103_Plan.md'' =
     Some (replaceDateFormats sample_platform
            (replaceVariableValue ''input'' ''Plan''
              (replaceVariableValue ''ext'' ''md'' ''N${year}${month}${day}_${input}.${ext}''))
            1793698200000)"
proof -
  have r1: "getEntryPathPattern sample_platform home_settings 1793698200000 None =
     Inr \<lparr>st_name = None, st_scope = Some ''default'',
          st_template = ''${homeDir}/journal/${year}'',
          st_value = Some ''${homeDir}/journal/2026''\<rparr>"
    by code_simp
  have b: "getBasePath sample_platform home_settings None = Inr ''/home/ana/Journal''"
    by code_simp
  have r2: "getNotesFilePattern sample_platform home_settings 1793698200000 ''Plan'' None =
     Inr \<lparr>st_name = None, st_scope = Some ''default'',
          st_template = ''N${year}${month}${day}_${input}.${ext}'',
          st_value = Some ''N20261103_Plan.md''\<rparr>"
    by code_simp
  have e: "getFileExtension home_settings = Inr ''md''"
    by code_simp
  note t = resolver_substitution_order[of sample_platform home_settings 1793698200000 None
      "''Plan''"]
  from t r1 b have v1: "Some ''${homeDir}/journal/2026'' =
     Some (path_normalize sample_platform
            (replaceDateFormats sample_platform
              (replaceVariableValue ''base'' ''/home/ana/Journal'' ''${homeDir}/journal/${year}'')
              1793698200000))"
    by force
  from t r2 e have v2: "Some ''N20261103_Plan.md'' =
     Some (replaceDateFormats sample_platform
            (replaceVariableValue ''input'' ''Plan''
              (replaceVariableValue ''ext'' ''md'' ''N${year}${month}${day}_${input}.${ext}''))
            1793698200000)"
    by force
  from r1 b v1 r2 e v2 show ?thesis by (intro conjI)
qed

section \<open>Path normalisation\<close>

text \<open>On a POSIX platform a normalised path never holds two separators in a row.\<close>

lemma doubled_separator_append:
  "doubled_separator (a @ b) \<longleftrightarrow>
     doubled_separator a \<or> doubled_separator b \<or>
     (a \<noteq> [] \<and> b \<noteq> [] \<and> last a = CHR ''/'' \<and> hd b = CHR ''/'')"
proof (induction a rule: doubled_separator.induct)
  case 1
  then show ?case by simp
next
  case (2 v)
  then show ?case by (cases b) auto
next
  case (3 x y r)
  then show ?case by auto
qed

lemma no_separator_not_doubled: "CHR ''/'' \<notin> set s \<Longrightarrow> \<not> doubled_separator s"
  by (induction s rule: doubled_separator.induct) auto

lemma split_path_no_separator: "x \<in> set (split_path p) \<Longrightarrow> CHR ''/'' \<notin> set x"
proof (induction p arbitrary: x)
  case Nil
  then show ?case by simp
next
  case (Cons c cs)
  show ?case
  proof (cases "c = CHR ''/''")
    case True
    with Cons show ?thesis by auto
  next
    case False
    obtain l ls where sp: "split_path cs = l # ls"
      by (cases "split_path cs") (auto, cases cs, auto split: if_splits list.splits)
    with False Cons.prems have "x = c # l \<or> x \<in> set ls" by auto
    then show ?thesis
    proof
      assume "x = c # l"
      moreover have "CHR ''/'' \<notin> set l" using Cons.IH[of l] sp by simp
      ultimately show ?thesis using False by auto
    next
      assume "x \<in> set ls"
      then show ?thesis using Cons.IH[of x] sp by simp
    qed
  qed
qed

lemma normalize_segments_plain:
  "\<forall>x\<in>set res. plain_segment x \<Longrightarrow> \<forall>x\<in>set ss. CHR ''/'' \<notin> set x \<Longrightarrow>
   \<forall>x\<in>set (normalize_segments allowAbove res ss). plain_segment x"
proof (induction ss arbitrary: res)
  case Nil
  then show ?case by simp
next
  case (Cons s ss)
  have tl: "\<forall>x\<in>set ss. CHR ''/'' \<notin> set x" using Cons.prems(2) by simp
  have bl: "\<forall>x\<in>set (butlast res). plain_segment x"
    using Cons.prems(1) by (meson in_set_butlastD)
  have dd: "\<forall>x\<in>set (res @ [''..'']). plain_segment x"
    using Cons.prems(1) by (simp add: plain_segment_def)
  have sn: "s \<noteq> [] \<Longrightarrow> \<forall>x\<in>set (res @ [s]). plain_segment x"
    using Cons.prems by (simp add: plain_segment_def)
  consider (skip) "s = [] \<or> s = ''.''"
    | (pop) "\<not> (s = [] \<or> s = ''.'')" "s = ''..''" "res \<noteq> [] \<and> last res \<noteq> ''..''"
    | (up) "\<not> (s = [] \<or> s = ''.'')" "s = ''..''" "\<not> (res \<noteq> [] \<and> last res \<noteq> ''..'')" "allowAbove"
    | (drop) "\<not> (s = [] \<or> s = ''.'')" "s = ''..''" "\<not> (res \<noteq> [] \<and> last res \<noteq> ''..'')" "\<not> allowAbove"
    | (push) "\<not> (s = [] \<or> s = ''.'')" "s \<noteq> ''..''"
    by blast
  then show ?case
  proof cases
    case skip
    then have "normalize_segments allowAbove res (s # ss) = normalize_segments allowAbove res ss"
      by auto
    then show ?thesis using Cons.IH[OF Cons.prems(1) tl] by simp
  next
    case pop
    then have "normalize_segments allowAbove res (s # ss) =
        normalize_segments allowAbove (butlast res) ss"
      by simp
    then show ?thesis using Cons.IH[OF bl tl] by simp
  next
    case up
    then have "normalize_segments allowAbove res (s # ss) =
        normalize_segments allowAbove (res @ [''..'']) ss"
      by auto
    then show ?thesis using Cons.IH[OF dd tl] by simp
  next
    case drop
    then have "normalize_segments allowAbove res (s # ss) = normalize_segments allowAbove res ss"
      by auto
    then show ?thesis using Cons.IH[OF Cons.prems(1) tl] by simp
  next
    case push
    then have "normalize_segments allowAbove res (s # ss) =
        normalize_segments allowAbove (res @ [s]) ss"
      by simp
    moreover from push have "s \<noteq> []" by simp
    ultimately show ?thesis using Cons.IH[OF sn tl] by simp
  qed
qed

lemma js_join_plain:
  "xs \<noteq> [] \<Longrightarrow> \<forall>x\<in>set xs. plain_segment x \<Longrightarrow>
   js_join ''/'' xs \<noteq> [] \<and> hd (js_join ''/'' xs) \<noteq> CHR ''/'' \<and>
   last (js_join ''/'' xs) \<noteq> CHR ''/'' \<and> \<not> doubled_separator (js_join ''/'' xs)"
proof (induction "''/''" xs rule: js_join.induct)
  case 1
  then show ?case by simp
next
  case (2 x)
  then have x: "x \<noteq> []" "CHR ''/'' \<notin> set x" by (auto simp: plain_segment_def)
  from x have "last x \<noteq> CHR ''/''" by (metis last_in_set)
  moreover from x have "hd x \<noteq> CHR ''/''" by (metis hd_in_set)
  ultimately show ?case using x by (simp add: no_separator_not_doubled)
next
  case (3 x y ys)
  then have px: "plain_segment x" and ih: "js_join ''/'' (y # ys) \<noteq> [] \<and>
      hd (js_join ''/'' (y # ys)) \<noteq> CHR ''/'' \<and> last (js_join ''/'' (y # ys)) \<noteq> CHR ''/'' \<and>
      \<not> doubled_separator (js_join ''/'' (y # ys))"
    by auto
  from px have x: "x \<noteq> []" "CHR ''/'' \<notin> set x" "\<not> doubled_separator x"
    by (auto simp: plain_segment_def no_separator_not_doubled)
  from x have lx: "last x \<noteq> CHR ''/''" by (metis last_in_set)
  from x have hx: "hd x \<noteq> CHR ''/''" by (metis hd_in_set)
  let ?r = "js_join ''/'' (y # ys)"
  have "\<not> doubled_separator (''/'' @ ?r)"
    using ih by (cases ?r) auto
  then have "\<not> doubled_separator (x @ ''/'' @ ?r)"
    using x lx by (subst doubled_separator_append) auto
  moreover have "hd (x @ ''/'' @ ?r) \<noteq> CHR ''/''" using x hx by simp
  moreover have "last (x @ ''/'' @ ?r) \<noteq> CHR ''/''" using ih by simp
  ultimately show ?case by simp
qed

lemma posix_normalize_collapses: "\<not> doubled_separator (posix_normalize p)"
proof (cases "p = []")
  case True
  then show ?thesis by (simp add: posix_normalize_def)
next
  case False
  let ?segs = "normalize_segments (hd p \<noteq> CHR ''/'') [] (split_path p)"
  let ?s = "js_join ''/'' ?segs"
  have pl: "\<forall>x\<in>set ?segs. plain_segment x"
    by (rule normalize_segments_plain) (auto dest: split_path_no_separator)
  show ?thesis
  proof (cases "?s = []")
    case True
    with False show ?thesis by (simp add: posix_normalize_def Let_def)
  next
    case ne: False
    then have "?segs \<noteq> []" by auto
    from js_join_plain[OF this pl]
    have j: "hd ?s \<noteq> CHR ''/''" "last ?s \<noteq> CHR ''/''" "\<not> doubled_separator ?s" by auto
    have a: "\<not> doubled_separator (?s @ ''/'')"
      using j ne by (simp add: doubled_separator_append)
    have b: "\<not> doubled_separator (''/'' @ ?s)"
      using j ne by (cases ?s) auto
    have c: "\<not> doubled_separator (''/'' @ ?s @ ''/'')"
      using a j ne by (cases ?s) auto
    have eq: "posix_normalize p =
        (if hd p = CHR ''/'' then ''/'' else []) @ ?s @ (if last p = CHR ''/'' then ''/'' else [])"
      using False ne by (simp add: posix_normalize_def Let_def)
    show ?thesis
    proof (cases "hd p = CHR ''/''")
      case True
      then show ?thesis using eq b c by (cases "last p = CHR ''/''") simp_all
    next
      case False
      then show ?thesis using eq a j by (cases "last p = CHR ''/''") simp_all
    qed
  qed
qed


text \<open>
  Claim C9. The value of the entry-path resolver is the substituted template passed
  through the platform's \<^verbatim>\<open>Path.normalize\<close>, so on a POSIX platform it holds no
  doubled separator; the value of the note-path resolver is the substituted template
  itself, with no normalisation applied to it.
\<close>

theorem entry_path_normalized_note_path_raw:
  "\<forall>base. getBasePath env cfg scopeId = Inr base \<longrightarrow>
     (\<exists>st. getEntryPathPattern env cfg date scopeId = Inr st \<and>
        st_value st =
          Some (path_normalize env
                 (replaceDateFormats env
                   (replaceVariableValue ''base'' base (st_template st)) date)) \<and>
        (path_normalize env = posix_normalize \<longrightarrow>
           (\<forall>v. st_value st = Some v \<longrightarrow> \<not> doubled_separator v))) \<and>
     (\<exists>st. getNotesPathPattern env cfg date scopeId = Inr st \<and>
        st_value st =
          Some (replaceDateFormats env
                 (replaceVariableValue ''base'' base
                   (replaceVariableValue ''homeDir'' (os_homedir env) (st_template st)))
                 date))"
  by (simp add: getNotesPathPattern_def getEntryPathPattern_def Let_def
      posix_normalize_collapses)

theorem entry_path_normalized_note_path_raw_witness:
  "getBasePath sample_platform scoped_settings (Some ''work'') = Inr ''/srv/work'' \<and>
   path_normalize sample_platform = posix_normalize \<and>
   (\<exists>st. getEntryPathPattern sample_platform scoped_settings 1793698200000 (Some ''work'') = Inr st \<and>
      st_template st = ''${base}//entries/${year}'' \<and>
      st_value st = Some ''/srv/work/entries/2026'' \<and>
      (\<forall>v. st_value st = Some v \<longrightarrow> \<not> doubled_separator v)) \<and>
   (\<exists>st. getNotesPathPattern sample_platform scoped_settings 1793698200000 (Some ''work'') = Inr st \<and>
      st_template st = ''${base}//notes/${year}'' \<and>
      st_value st = Some ''/srv/work//notes/2026'' \<and>
      doubled_separator ''/srv/work//notes/2026'')"
proof -
  have b: "getBasePath sample_platform scoped_settings (Some ''work'') = Inr ''/srv/work''"
    by code_simp
  have n: "path_normalize sample_platform = posix_normalize"
    by (simp add: sample_platform_def)
  have v1: "map_sum id (\<lambda>st. (st_template st, st_value st))
      (getEntryPathPattern sample_platform scoped_settings 1793698200000 (Some ''work'')) =
      Inr (''${base}//entries/${year}'', Some ''/srv/work/entries/2026'')"
    by code_simp
  have v2: "map_sum id (\<lambda>st. (st_template st, st_value st))
      (getNotesPathPattern sample_platform scoped_settings 1793698200000 (Some ''work'')) =
      Inr (''${base}//notes/${year}'', Some ''/srv/work//notes/2026'')"
    by code_simp
  have d: "doubled_separator ''/srv/work//notes/2026''" by simp
  note t = entry_path_normalized_note_path_raw[of sample_platform scoped_settings
      "Some ''work''" 1793698200000]
  from t b n obtain st1 where
    s1: "getEntryPathPattern sample_platform scoped_settings 1793698200000 (Some ''work'') = Inr st1"
      "\<forall>v. st_value st1 = Some v \<longrightarrow> \<not> doubled_separator v"
    by blast
  from t b obtain st2 where
    s2: "getNotesPathPattern sample_platform scoped_settings 1793698200000 (Some ''work'') = Inr st2"
    by blast
  from s1(1) v1 have c1: "st_template st1 = ''${base}//entries/${year}''"
      "st_value st1 = Some ''/srv/work/entries/2026''"
    by simp_all
  from s2 v2 have c2: "st_template st2 = ''${base}//notes/${year}''"
      "st_value st2 = Some ''/srv/work//notes/2026''"
    by simp_all
  from b n s1 s2 c1 c2 d show ?thesis by blast
qed

section \<open>Batched insertion\<close>

subsection \<open>The edit of one call\<close>

lemma split_lines_nonempty: "split_lines s \<noteq> []"
  by (induction s) (auto split: list.splits)

lemma lineCount_positive: "0 < lineCount doc"
  by (simp add: lineCount_def split_lines_nonempty)

lemma validatePosition_line: "line (validatePosition doc p) < lineCount doc"
  using split_lines_nonempty[of "getText doc"]
  by (auto simp: validatePosition_def lineCount_def Let_def)

lemma lineAt_in_range: "n < lineCount doc \<Longrightarrow> \<exists>t. lineAt doc n = Inr t"
  by (simp add: lineAt_def)

lemma shift_occupied_wraps:
  assumes "line pos < lineCount doc"
  shows "\<exists>a b. shift_occupied doc newLine pos v = Inr (a @ v @ b)"
proof -
  from assms obtain t where t: "lineAt doc (line pos) = Inr t"
    using lineAt_in_range by blast
  have "lineCount doc - 1 < lineCount doc" using lineCount_positive[of doc] by simp
  then obtain u where u: "lineAt doc (lineCount doc - 1) = Inr u"
    using lineAt_in_range by blast
  have e: "\<exists>a b. w = a @ v @ b" if "w = v \<or> w = v @ LF \<or> w = (LF @ v) @ LF" for w
    using that by (metis append.assoc append_Nil append_Nil2)
  show ?thesis
    unfolding shift_occupied_def t u
    by (auto intro!: e)
qed

lemma separate_header_appends:
  "\<exists>b. separate_header doc newLine pos v = Inr (v @ b)"
proof (cases "newLine \<and> lineCount doc > line (translate pos 1)")
  case True
  then have "line pos + 1 < lineCount doc" by (simp add: translate_def)
  then obtain t where "lineAt doc (line pos + 1) = Inr t"
    using lineAt_in_range by blast
  with True show ?thesis by (auto simp: separate_header_def)
next
  case False
  then show ?thesis by (auto simp: separate_header_def)
qed

lemma insert_others_positions:
  "\<forall>c\<in>set other. position c \<noteq> None \<Longrightarrow>
   insert_others other =
     Inr (map (\<lambda>c. (uri (document c), the (position c), val c @ LF)) other)"
  by (induction other) auto

text \<open>
  For any document and any entries with a position, the call succeeds and builds exactly
  one edit: first the insertion of the leading entry, at its validated position and with
  the value that the two line-break stages compute, then one insertion per further
  entry, at that entry's own position and with a line break appended. The edit is applied
  in one step to the document as it was at call time.
\<close>

lemma injectInlineString_edit:
  fixes content :: InlineString
  defines "doc \<equiv> document content"
  defines "pos0 \<equiv> (case position content of None \<Rightarrow> \<lparr>line = 1, character = 0\<rparr> | Some p \<Rightarrow> p)"
  defines "pos \<equiv> validatePosition doc pos0"
  assumes "\<forall>c\<in>set other. position c \<noteq> None"
  shows "\<exists>v1 v2.
     shift_occupied doc (character pos0 = 0) pos (val content) = Inr v1 \<and>
     separate_header doc (character pos0 = 0) pos v1 = Inr v2 \<and>
     prepare_content content = Inr (content\<lparr>position := Some pos, val := v2\<rparr>) \<and>
     collect_edit (content\<lparr>position := Some pos, val := v2\<rparr>) other =
       Inr ((uri doc, pos, v2) #
            map (\<lambda>c. (uri (document c), the (position c), val c @ LF)) other) \<and>
     injectInlineString True content other =
       Inr (snd (applyEdit True doc
              ((uri doc, pos, v2) #
               map (\<lambda>c. (uri (document c), the (position c), val c @ LF)) other)))"
proof -
  let ?nl = "character pos0 = 0"
  let ?rest = "map (\<lambda>c. (uri (document c), the (position c), val c @ LF)) other"
  have "line pos < lineCount doc" unfolding pos_def by (rule validatePosition_line)
  from shift_occupied_wraps[OF this] obtain v1
    where 1: "shift_occupied doc ?nl pos (val content) = Inr v1" by blast
  obtain b where 2: "separate_header doc ?nl pos v1 = Inr (v1 @ b)"
    using separate_header_appends by blast
  have pc: "prepare_content content = Inr (content\<lparr>position := Some pos, val := v1 @ b\<rparr>)"
    using 1 2 unfolding doc_def pos0_def pos_def
    by (simp add: prepare_content_def Let_def)
  from assms(4) have io: "insert_others other = Inr ?rest"
    by (rule insert_others_positions)
  have ce: "collect_edit (content\<lparr>position := Some pos, val := v1 @ b\<rparr>) other =
      Inr ((uri doc, pos, v1 @ b) # ?rest)"
    by (simp add: collect_edit_def io doc_def)
  have inj: "injectInlineString True content other =
      Inr (snd (applyEdit True doc ((uri doc, pos, v1 @ b) # ?rest)))"
    by (simp add: injectInlineString_def pc ce applyEdit_def doc_def)
  from 1 2 pc ce inj show ?thesis by blast
qed

subsection \<open>Lines of the edited text\<close>

lemma split_lines_append_break:
  "split_lines (a @ CHR 0x0A # b) = split_lines a @ split_lines b"
proof (induction a)
  case Nil
  then show ?case by simp
next
  case (Cons c a)
  obtain l ls where sp: "split_lines a = l # ls"
    using split_lines_nonempty[of a] by (cases "split_lines a") auto
  with Cons show ?case by simp
qed

lemma split_lines_single: "CHR 0x0A \<notin> set v \<Longrightarrow> split_lines v = [v]"
  by (induction v) auto

lemma own_line_after_break:
  assumes "CHR 0x0A \<notin> set v" and "A = [] \<or> last A = CHR 0x0A"
  shows "v \<in> set (split_lines (A @ v @ CHR 0x0A # B))"
proof (cases A rule: rev_cases)
  case Nil
  then show ?thesis
    using split_lines_append_break[of v B] split_lines_single[OF assms(1)] by simp
next
  case (snoc A' c)
  with assms(2) have c: "c = CHR 0x0A" by simp
  have "split_lines (A' @ CHR 0x0A # (v @ CHR 0x0A # B)) =
      split_lines A' @ split_lines (v @ CHR 0x0A # B)"
    by (rule split_lines_append_break)
  also have "\<dots> = split_lines A' @ v # split_lines B"
    using split_lines_append_break[of v B] split_lines_single[OF assms(1)] by simp
  finally show ?thesis unfolding snoc c by simp
qed

lemma lines_joined:
  "concat (map (\<lambda>x. x @ [CHR 0x0A]) (split_lines T)) = T @ [CHR 0x0A]"
proof (induction T)
  case Nil
  then show ?case by simp
next
  case (Cons c cs)
  obtain l ls where sp: "split_lines cs = l # ls"
    using split_lines_nonempty[of cs] by (cases "split_lines cs") auto
  with Cons show ?case by simp
qed

lemma concat_breaks_last:
  "xs \<noteq> [] \<Longrightarrow> concat (map (\<lambda>x. x @ [c]) xs) \<noteq> [] \<and> last (concat (map (\<lambda>x. x @ [c]) xs)) = c"
  by (cases xs rule: rev_cases) auto

lemma length_concat_breaks:
  "length (concat (map (\<lambda>x. x @ [c]) xs)) = sum_list (map (\<lambda>x. length x + 1) xs)"
  by (induction xs) auto

lemma line_start:
  assumes "l < length (split_lines T)"
  defines "off \<equiv> sum_list (map (\<lambda>x. length x + 1) (take l (split_lines T)))"
  shows "off \<le> length T \<and> (take off T = [] \<or> last (take off T) = CHR 0x0A)"
proof -
  let ?g = "\<lambda>x. x @ [CHR 0x0A]"
  let ?P = "concat (map ?g (take l (split_lines T)))"
  let ?Q = "concat (map ?g (drop l (split_lines T)))"
  have pq: "?P @ ?Q = T @ [CHR 0x0A]"
    using lines_joined[of T]
    by (metis append_take_drop_id concat_append map_append)
  have lp: "length ?P = off" by (simp add: off_def length_concat_breaks)
  from assms(1) have "drop l (split_lines T) \<noteq> []" by simp
  from concat_breaks_last[OF this] have "?Q \<noteq> []" by blast
  then have "length ?P < length (T @ [CHR 0x0A])"
    by (metis pq length_append length_greater_0_conv less_add_same_cancel1)
  with lp have le: "off \<le> length T" by simp
  have "take off (T @ [CHR 0x0A]) = ?P"
    using pq lp by (metis append_eq_conv_conj)
  with le have tk: "take off T = ?P" by simp
  have "?P = [] \<or> last ?P = CHR 0x0A"
  proof (cases "take l (split_lines T) = []")
    case True
    then show ?thesis by simp
  next
    case False
    from concat_breaks_last[OF this] show ?thesis by blast
  qed
  with le tk show ?thesis by simp
qed

lemma lines_total_length:
  "sum_list (map (\<lambda>x. length x + 1) (split_lines T)) = length T + 1"
  using lines_joined[of T] length_concat_breaks[of "CHR 0x0A" "split_lines T"]
  by (metis length_append_singleton Suc_eq_plus1)

lemma validatePosition_idem:
  "validatePosition doc (validatePosition doc p) = validatePosition doc p"
  using split_lines_nonempty[of "getText doc"]
  by (auto simp: validatePosition_def Let_def last_conv_nth)

lemma offsetAt_validated: "offsetAt doc (validatePosition doc p) = offsetAt doc p"
  by (simp add: offsetAt_def validatePosition_idem)

lemma offsetAt_line_start:
  assumes "character p = 0" and "line p < lineCount doc"
  shows "offsetAt doc p =
    sum_list (map (\<lambda>x. length x + 1) (take (line p) (split_lines (getText doc))))"
  using assms by (simp add: offsetAt_def validatePosition_def lineCount_def Let_def)

lemma validatePosition_beyond:
  assumes "lineCount doc \<le> line p"
  shows "validatePosition doc p =
    \<lparr>line = lineCount doc - 1,
     character = length (split_lines (getText doc) ! (lineCount doc - 1))\<rparr>"
  using assms split_lines_nonempty[of "getText doc"]
  by (simp add: validatePosition_def lineCount_def Let_def last_conv_nth)

lemma offsetAt_beyond:
  assumes "lineCount doc \<le> line p"
  shows "offsetAt doc p = length (getText doc)"
proof -
  let ?ls = "split_lines (getText doc)"
  have ne: "?ls \<noteq> []" by (rule split_lines_nonempty)
  then have bl: "butlast ?ls @ [last ?ls] = ?ls" by simp
  have "sum_list (map (\<lambda>x. length x + 1) (butlast ?ls @ [last ?ls])) =
      sum_list (map (\<lambda>x. length x + 1) (butlast ?ls)) + (length (last ?ls) + 1)"
    by simp
  with bl lines_total_length[of "getText doc"]
  have tot: "sum_list (map (\<lambda>x. length x + 1) (butlast ?ls)) + length (last ?ls) =
      length (getText doc)"
    by simp
  have v: "validatePosition doc p = \<lparr>line = length ?ls - 1, character = length (last ?ls)\<rparr>"
    using assms by (simp add: validatePosition_def lineCount_def Let_def)
  have "offsetAt doc p = offsetAt doc (validatePosition doc p)"
    by (simp add: offsetAt_validated)
  also have "\<dots> = sum_list (map (\<lambda>x. length x + 1) (take (length ?ls - 1) ?ls)) +
      length (last ?ls)"
    unfolding offsetAt_def validatePosition_idem by (simp add: v Let_def)
  also have "take (length ?ls - 1) ?ls = butlast ?ls" by (simp add: butlast_conv_take)
  finally show ?thesis using tot by simp
qed

lemma splice_inserts_passed:
  "\<forall>e\<in>set ins. fst e < i \<Longrightarrow> splice_inserts i s ins = s"
proof (induction s arbitrary: i)
  case Nil
  then have "filter (\<lambda>e. fst e \<ge> i) ins = []" by (auto simp: filter_empty_conv)
  then show ?case by simp
next
  case (Cons c cs)
  then have "filter (\<lambda>e. fst e = i) ins = []" by (auto simp: filter_empty_conv)
  moreover from Cons.prems have "\<forall>e\<in>set ins. fst e < Suc i" by auto
  from Cons.IH[OF this] have "splice_inserts (Suc i) cs ins = cs" .
  ultimately show ?case by simp
qed

lemma splice_inserts_same_offset:
  "\<forall>e\<in>set ins. fst e = off \<Longrightarrow> i \<le> off \<Longrightarrow> off \<le> i + length s \<Longrightarrow>
   splice_inserts i s ins = take (off - i) s @ concat (map snd ins) @ drop (off - i) s"
proof (induction s arbitrary: i)
  case Nil
  then have "filter (\<lambda>e. fst e \<ge> i) ins = ins" by (auto simp: filter_id_conv)
  then show ?case by simp
next
  case (Cons c cs)
  show ?case
  proof (cases "off = i")
    case True
    with Cons.prems have f: "filter (\<lambda>e. fst e = i) ins = ins" by (auto simp: filter_id_conv)
    from True Cons.prems have "\<forall>e\<in>set ins. fst e < Suc i" by auto
    from splice_inserts_passed[OF this] have "splice_inserts (Suc i) cs ins = cs" .
    with f True show ?thesis by simp
  next
    case False
    with Cons.prems have f: "filter (\<lambda>e. fst e = i) ins = []" by (auto simp: filter_empty_conv)
    from False Cons.prems have le: "Suc i \<le> off" "off \<le> Suc i + length cs" by auto
    from Cons.IH[OF Cons.prems(1) le]
    have "splice_inserts (Suc i) cs ins =
        take (off - Suc i) cs @ concat (map snd ins) @ drop (off - Suc i) cs" .
    moreover from le have "off - i = Suc (off - Suc i)" by simp
    ultimately show ?thesis using f by simp
  qed
qed

lemma prepare_content_occupied:
  assumes "position content = Some p" and "character p = 0"
    and "lineAt (document content) (line (validatePosition (document content) p)) = Inr t"
    and "\<not> isEmptyOrWhitespace t"
  shows "\<exists>Y. (Y = [] \<or> Y = LF) \<and>
    prepare_content content =
      Inr (content\<lparr>position := Some (validatePosition (document content) p),
         val := ((if isAfterOrEqual (validatePosition (document content) p)
                       \<lparr>line = lineCount (document content) - 1,
                        character = length (split_lines (getText (document content)) !
                                      (lineCount (document content) - 1))\<rparr>
                  then LF @ val content else val content) @ LF) @ Y\<rparr>)"
proof -
  let ?doc = "document content"
  let ?pos = "validatePosition ?doc p"
  let ?end = "\<lparr>line = lineCount ?doc - 1,
     character = length (split_lines (getText ?doc) ! (lineCount ?doc - 1))\<rparr>"
  define v1 where
    "v1 = (if isAfterOrEqual ?pos ?end then LF @ val content else val content) @ LF"
  have "lineCount ?doc - 1 < lineCount ?doc" using lineCount_positive[of ?doc] by simp
  then have u: "lineAt ?doc (lineCount ?doc - 1) =
      Inr (split_lines (getText ?doc) ! (lineCount ?doc - 1))"
    by (simp add: lineAt_def)
  have 1: "shift_occupied ?doc True ?pos (val content) = Inr v1"
    unfolding shift_occupied_def assms(3) u v1_def using assms(4) by simp
  obtain b where 2: "separate_header ?doc True ?pos v1 = Inr (v1 @ b)"
    using separate_header_appends by blast
  have b: "b = [] \<or> b = LF"
  proof (cases "lineCount ?doc > line (translate ?pos 1)")
    case True
    then have "line ?pos + 1 < lineCount ?doc" by (simp add: translate_def)
    then obtain f where "lineAt ?doc (line ?pos + 1) = Inr f"
      using lineAt_in_range by blast
    with True 2 show ?thesis by (auto simp: separate_header_def split: if_splits)
  next
    case False
    with 2 show ?thesis by (auto simp: separate_header_def)
  qed
  have "prepare_content content = Inr (content\<lparr>position := Some ?pos, val := v1 @ b\<rparr>)"
    using assms(1,2) by (simp add: prepare_content_def Let_def 1 2)
  with b show ?thesis unfolding v1_def by blast
qed

text \<open>
  When all entries share the document and one position at column 0, the line at the
  validated position is occupied and no value contains a line break, every value stands
  on a line of its own after the call. The position may lie beyond the end of the
  document.
\<close>

lemma injectInlineString_own_lines:
  assumes p: "position content = Some p" and col: "character p = 0"
    and t: "lineAt (document content) (line (validatePosition (document content) p)) = Inr t"
    and occ: "\<not> isEmptyOrWhitespace t"
    and oth: "\<forall>c\<in>set other. document c = document content \<and> position c = Some p"
    and nolf: "\<forall>c\<in>set (content # other). CHR 0x0A \<notin> set (val c)"
  shows "\<exists>doc'. injectInlineString True content other = Inr doc' \<and>
           (\<forall>c\<in>set (content # other). on_own_line (val c) doc')"
proof -
  let ?doc = "document content"
  let ?T = "getText ?doc"
  let ?pos = "validatePosition ?doc p"
  let ?end = "\<lparr>line = lineCount ?doc - 1,
     character = length (split_lines ?T ! (lineCount ?doc - 1))\<rparr>"
  let ?g = "\<lambda>c. val c @ LF"
  define off where "off = offsetAt ?doc p"
  define X where "X = (if isAfterOrEqual ?pos ?end then LF else [])"
  from prepare_content_occupied[OF p col t occ] obtain Y
    where Y: "Y = [] \<or> Y = LF"
      and pc: "prepare_content content =
        Inr (content\<lparr>position := Some ?pos, val := ((X @ val content) @ LF) @ Y\<rparr>)"
    unfolding X_def by (auto split: if_splits)
  define V where "V = ((X @ val content) @ LF) @ Y"
  have Vne: "V \<noteq> []" and Vlast: "last V = CHR 0x0A"
    using Y by (auto simp: V_def LF_def)
  from oth have "\<forall>c\<in>set other. position c \<noteq> None" by simp
  then have "insert_others other =
      Inr (map (\<lambda>c. (uri (document c), the (position c), val c @ LF)) other)"
    by (rule insert_others_positions)
  moreover from oth have "map (\<lambda>c. (uri (document c), the (position c), val c @ LF)) other =
      map (\<lambda>c. (uri ?doc, p, val c @ LF)) other"
    by (intro map_cong) auto
  ultimately have io: "insert_others other = Inr (map (\<lambda>c. (uri ?doc, p, val c @ LF)) other)"
    by simp
  let ?edit = "(uri ?doc, ?pos, V) # map (\<lambda>c. (uri ?doc, p, val c @ LF)) other"
  have ce: "collect_edit (content\<lparr>position := Some ?pos, val := V\<rparr>) other = Inr ?edit"
    by (simp add: collect_edit_def io)
  have fl: "filter (\<lambda>(u, p, t). u = uri ?doc) ?edit = ?edit"
    by (auto simp: filter_id_conv)
  let ?ins = "(off, V) # map (\<lambda>c. (off, val c @ LF)) other"
  have ins: "map (\<lambda>(u, p, t). (offsetAt ?doc p, t)) (filter (\<lambda>(u, p, t). u = uri ?doc) ?edit) = ?ins"
    unfolding fl by (simp add: off_def offsetAt_validated o_def)
  have same: "\<forall>e\<in>set ?ins. fst e = off" by auto
  have offs: "off \<le> length ?T \<and> (X = [] \<longrightarrow> take off ?T = [] \<or> last (take off ?T) = CHR 0x0A)"
  proof (cases "line p < lineCount ?doc")
    case True
    then have "line p < length (split_lines ?T)" by (simp add: lineCount_def)
    from line_start[OF this] offsetAt_line_start[OF col True]
    show ?thesis by (simp add: off_def)
  next
    case False
    then have b: "lineCount ?doc \<le> line p" by simp
    from validatePosition_beyond[OF b] have "isAfterOrEqual ?pos ?end"
      by (simp add: isAfterOrEqual_def)
    then have "X \<noteq> []" by (simp add: X_def LF_def)
    with offsetAt_beyond[OF b] show ?thesis by (simp add: off_def)
  qed
  then have le: "off \<le> 0 + length ?T" by simp
  have cm: "concat (map snd ?ins) = V @ concat (map ?g other)"
    by (simp add: o_def)
  define T' where "T' = take off ?T @ (V @ concat (map ?g other)) @ drop off ?T"
  have sp: "splice_inserts 0 ?T ?ins = T'"
    using splice_inserts_same_offset[OF same _ le] unfolding cm T'_def by simp
  have ap: "applyEdit True ?doc ?edit = (True, ?doc\<lparr>getText := T'\<rparr>)"
    unfolding applyEdit_def ins sp by simp
  have inj: "injectInlineString True content other = Inr (?doc\<lparr>getText := T'\<rparr>)"
    unfolding injectInlineString_def pc V_def[symmetric]
    by (simp add: ce ap)
  have first: "on_own_line (val content) (?doc\<lparr>getText := T'\<rparr>)"
  proof -
    from nolf have n: "CHR 0x0A \<notin> set (val content)" by simp
    have A: "take off ?T @ X = [] \<or> last (take off ?T @ X) = CHR 0x0A"
      using offs by (auto simp: X_def LF_def)
    have "T' = (take off ?T @ X) @ val content @ CHR 0x0A # (Y @ concat (map ?g other) @ drop off ?T)"
      by (simp add: T'_def V_def LF_def)
    with own_line_after_break[OF n A] show ?thesis by (simp add: on_own_line_def)
  qed
  have rest: "on_own_line (val c) (?doc\<lparr>getText := T'\<rparr>)" if c: "c \<in> set other" for c
  proof -
    from nolf c have n: "CHR 0x0A \<notin> set (val c)" by simp
    from c obtain ys zs where sl: "other = ys @ c # zs" by (meson split_list)
    let ?A = "take off ?T @ V @ concat (map ?g ys)"
    have "ys \<noteq> [] \<Longrightarrow> last (concat (map ?g ys)) = CHR 0x0A \<and> concat (map ?g ys) \<noteq> []"
      unfolding LF_def by (cases ys rule: rev_cases) auto
    then have "V @ concat (map ?g ys) \<noteq> [] \<and> last (V @ concat (map ?g ys)) = CHR 0x0A"
      using Vne Vlast by (cases "ys = []") auto
    then have A: "?A = [] \<or> last ?A = CHR 0x0A" by simp
    have "T' = ?A @ val c @ CHR 0x0A # (concat (map ?g zs) @ drop off ?T)"
      by (simp add: T'_def sl LF_def)
    with own_line_after_break[OF n A] show ?thesis by (simp add: on_own_line_def)
  qed
  from inj first rest show ?thesis by auto
qed

lemma injectInlineString_own_lines_example:
  "injectInlineString True
     \<lparr>position = Some \<lparr>line = 2, character = 0\<rparr>, val = ''- tea'',
      document = sample_doc_tasks_listed\<rparr>
     [\<lparr>position = Some \<lparr>line = 2, character = 0\<rparr>, val = ''- milk'',
       document = sample_doc_tasks_listed\<rparr>] =
     Inr (sample_doc_tasks_listed\<lparr>getText :=
            ''# Tuesday'' @ LF @ ''Tasks:'' @ LF @ ''- tea'' @ LF @ ''- milk'' @ LF @
            ''- bread'' @ LF\<rparr>) \<and>
   on_own_line ''- tea''
     (sample_doc_tasks_listed\<lparr>getText :=
        ''# Tuesday'' @ LF @ ''Tasks:'' @ LF @ ''- tea'' @ LF @ ''- milk'' @ LF @
        ''- bread'' @ LF\<rparr>) \<and>
   on_own_line ''- milk''
     (sample_doc_tasks_listed\<lparr>getText :=
        ''# Tuesday'' @ LF @ ''Tasks:'' @ LF @ ''- tea'' @ LF @ ''- milk'' @ LF @
        ''- bread'' @ LF\<rparr>)"
  by code_simp

subsection \<open>A blank target line\<close>

text \<open>
  Claim C3. One call with several entries for the same document adds every insertion to
  a single edit, and each inserted value ends up on a line of its own. The edit is as
  claimed, and so are the lines when the shared target line is occupied. On a blank
  target line the leading value gets no line break, since line breaks are added to it
  only next to an occupied line, and the further value gets only the line break that
  follows it: two entries built from the same template for a page whose line below the
  anchor is empty arrive at the same position and end up on one line.
\<close>

theorem injectInlineString_shared_line:
  "buildInlineString sample_doc_tasks_blank sample_tpl_plain_anchor [(''${input}'', ''tea'')] =
     Inr sample_entry_tea \<and>
   buildInlineString sample_doc_tasks_blank sample_tpl_plain_anchor [(''${input}'', ''milk'')] =
     Inr sample_entry_milk \<and>
   injectInlineString True sample_entry_tea [sample_entry_milk] =
     Inr (sample_doc_tasks_blank\<lparr>getText :=
            ''# Tuesday'' @ LF @ ''Tasks:'' @ LF @ ''- tea- milk'' @ LF\<rparr>) \<and>
   \<not> on_own_line ''- tea''
       (sample_doc_tasks_blank\<lparr>getText :=
          ''# Tuesday'' @ LF @ ''Tasks:'' @ LF @ ''- tea- milk'' @ LF\<rparr>) \<and>
   \<not> on_own_line ''- milk''
       (sample_doc_tasks_blank\<lparr>getText :=
          ''# Tuesday'' @ LF @ ''Tasks:'' @ LF @ ''- tea- milk'' @ LF\<rparr>)"
  by code_simp

end
